theory Spec2Isabelle
  imports Complex_Main "HOL-Library.Char_ord" "HOL-Library.List_Lexorder"
begin

section \<open>Python strings\<close>

text \<open>
  A Python \<open>str\<close> is modelled as a \<open>string\<close> with one \<open>char\<close> per code point, so the
  model covers text whose code points are below 256. Python compares strings code point
  by code point, a proper prefix being smaller; SQLite's default collation compares the
  same way. Both are the order \<open><\<close> on \<open>char list\<close>.
\<close>

definition isspace :: "char \<Rightarrow> bool" where
  \<comment> \<open>\<open>str.isspace\<close> on one code point below 256: what \<open>str.strip()\<close> removes.\<close>
  "isspace c =
     (let n = (of_char c :: nat)
      in (9 \<le> n \<and> n \<le> 13) \<or> (28 \<le> n \<and> n \<le> 32) \<or> n = 133 \<or> n = 160)"

definition strip :: "string \<Rightarrow> string" where
  "strip s = rev (dropWhile isspace (rev (dropWhile isspace s)))"

definition is_digit :: "char \<Rightarrow> bool" where
  \<comment> \<open>\<open>[0-9]\<close>, which is also all of \<open>\d\<close> below code point 256.\<close>
  "is_digit c = (CHR ''0'' \<le> c \<and> c \<le> CHR ''9'')"

definition digit_val :: "char \<Rightarrow> nat" where
  "digit_val c = of_char c - 48"

definition upper_char :: "char \<Rightarrow> char" where
  "upper_char c =
     (if CHR ''a'' \<le> c \<and> c \<le> CHR ''z'' then char_of (of_char c - (32 :: nat)) else c)"

definition upper :: "string \<Rightarrow> string" where
  \<comment> \<open>\<open>str.upper()\<close> on ASCII text. The source calls it on a validated roll number only,
     whose characters are ASCII letters, digits and hyphens.\<close>
  "upper s = map upper_char s"

section \<open>Roll-number validation\<close>

definition roll_char :: "char \<Rightarrow> bool" where
  \<comment> \<open>The character class \<open>[A-Za-z0-9\-]\<close>.\<close>
  "roll_char c =
     ((CHR ''A'' \<le> c \<and> c \<le> CHR ''Z'') \<or> (CHR ''a'' \<le> c \<and> c \<le> CHR ''z'') \<or>
      (CHR ''0'' \<le> c \<and> c \<le> CHR ''9'') \<or> c = CHR ''-'')"

definition re_match_roll :: "string \<Rightarrow> bool" where
  \<comment> \<open>\<open>re.match(r'^[A-Za-z0-9\-]{3,15}$', t)\<close> finds a match: some \<open>k\<close> of 3 to 15 leading
     characters of the class, after which \<open>$\<close> holds. Python's \<open>$\<close> holds at the end of
     the text and also just before a newline that ends it.\<close>
  "re_match_roll t =
     list_ex (\<lambda>k. k \<le> length t \<and> list_all roll_char (take k t) \<and>
                  (drop k t = [] \<or> drop k t = [CHR 0x0A])) [3..<16]"

definition validate_roll_number :: "string \<Rightarrow> bool \<times> string" where
  "validate_roll_number roll =
     (if roll = [] \<or> strip roll = [] then (False, ''Roll number cannot be empty.'')
      else if \<not> re_match_roll (strip roll)
        then (False, ''Roll number must be 3-15 alphanumeric characters (hyphens allowed).'')
      else (True, ''Valid roll number.''))"

definition roll_number_accepted :: "string \<Rightarrow> bool" where
  \<comment> \<open>The specification's rule: after trimming, non-empty and wholly
     \<open>[A-Za-z0-9-]{3,15}\<close>.\<close>
  "roll_number_accepted roll =
     (let t = strip roll
      in t \<noteq> [] \<and> 3 \<le> length t \<and> length t \<le> 15 \<and> list_all roll_char t)"

definition lower_char :: "char \<Rightarrow> char" where
  "lower_char c =
     (if CHR ''A'' \<le> c \<and> c \<le> CHR ''Z'' then char_of (of_char c + (32 :: nat)) else c)"

definition digit_char :: "nat \<Rightarrow> char" where
  "digit_char n = ''0123456789'' ! n"

fun decimal :: "nat \<Rightarrow> string" where
  "decimal n = (if n < 10 then [digit_char n] else decimal (n div 10) @ [digit_char (n mod 10)])"

declare decimal.simps [simp del]

definition pad2 :: "nat \<Rightarrow> string" where
  "pad2 n = [digit_char (n div 10 mod 10), digit_char (n mod 10)]"

definition pad4 :: "nat \<Rightarrow> string" where
  "pad4 n = pad2 (n div 100 mod 100) @ pad2 (n mod 100)"

section \<open>Calendar dates\<close>

text \<open>
  Python's \<open>datetime\<close> on the proleptic Gregorian calendar: years 1 to 9999, a date as
  (year, month, day). The functions below are the ones of the standard library that
  the handlers reach: \<open>_is_leap\<close>, \<open>_days_in_month\<close>, \<open>_days_before_year\<close>,
  \<open>_days_before_month\<close>, \<open>_ymd2ord\<close> and \<open>weekday\<close> (Monday is 0, Sunday is 6).
\<close>

definition is_leap :: "nat \<Rightarrow> bool" where
  "is_leap y = (y mod 4 = 0 \<and> (y mod 100 \<noteq> 0 \<or> y mod 400 = 0))"

definition days_in_month :: "nat \<Rightarrow> nat \<Rightarrow> nat" where
  \<comment> \<open>For a month of 1 to 12, as every caller passes.\<close>
  "days_in_month y m =
     (if m = 2 \<and> is_leap y then 29
      else [0, 31, 28, 31, 30, 31, 30, 31, 31, 30, 31, 30, 31] ! m)"

definition days_before_year :: "nat \<Rightarrow> nat" where
  "days_before_year y = (let z = y - 1 in z * 365 + z div 4 - z div 100 + z div 400)"

definition days_before_month :: "nat \<Rightarrow> nat \<Rightarrow> nat" where
  "days_before_month y m =
     [0, 0, 31, 59, 90, 120, 151, 181, 212, 243, 273, 304, 334] ! m +
     (if m > 2 \<and> is_leap y then 1 else 0)"

definition ymd2ord :: "nat \<Rightarrow> nat \<Rightarrow> nat \<Rightarrow> nat" where
  "ymd2ord y m d = days_before_year y + days_before_month y m + d"

definition weekday :: "nat \<times> nat \<times> nat \<Rightarrow> nat" where
  "weekday dt = (case dt of (y, m, d) \<Rightarrow> (ymd2ord y m d + 6) mod 7)"

definition valid_date :: "nat \<Rightarrow> nat \<Rightarrow> nat \<Rightarrow> bool" where
  "valid_date y m d =
     (1 \<le> y \<and> y \<le> 9999 \<and> 1 \<le> m \<and> m \<le> 12 \<and> 1 \<le> d \<and> d \<le> days_in_month y m)"

definition iso_date :: "nat \<Rightarrow> nat \<Rightarrow> nat \<Rightarrow> string" where
  \<comment> \<open>The ISO form \<open>YYYY-MM-DD\<close> of a date.\<close>
  "iso_date y m d = pad4 y @ ''-'' @ pad2 m @ ''-'' @ pad2 d"

definition date_less :: "nat \<times> nat \<times> nat \<Rightarrow> nat \<times> nat \<times> nat \<Rightarrow> bool" where
  \<comment> \<open>The first date is an earlier calendar day than the second.\<close>
  "date_less a b =
     (case a of (y, m, d) \<Rightarrow> case b of (y', m', d') \<Rightarrow>
        y < y' \<or> (y = y' \<and> (m < m' \<or> (m = m' \<and> d < d'))))"

subsection \<open>\<open>datetime.strptime(s, '%Y-%m-%d')\<close>\<close>

text \<open>
  \<open>strptime\<close> matches the text against the regular expression
  \<open>(?P<Y>\d\d\d\d)-(?P<m>1[0-2]|0[1-9]|[1-9])-(?P<d>3[0-1]|[1-2]\d|0[1-9]|[1-9]| [1-9])\<close>
  from its start, takes the first match in the order of the alternatives, and raises
  \<open>ValueError\<close> when there is no match, when text remains after the match, or when the
  three numbers are not a date. Each part below lists its matches in that order, each
  with the text left over.
\<close>

definition year_part :: "string \<Rightarrow> (nat \<times> string) list" where
  "year_part s =
     (case s of
        a # b # c # d # r \<Rightarrow>
          (if is_digit a \<and> is_digit b \<and> is_digit c \<and> is_digit d
           then [(1000 * digit_val a + 100 * digit_val b + 10 * digit_val c + digit_val d, r)]
           else [])
      | _ \<Rightarrow> [])"

definition hyphen :: "string \<Rightarrow> string list" where
  "hyphen s = (case s of c # r \<Rightarrow> (if c = CHR ''-'' then [r] else []) | [] \<Rightarrow> [])"

definition two_chars :: "(char \<Rightarrow> bool) \<Rightarrow> (char \<Rightarrow> bool) \<Rightarrow> string \<Rightarrow> (nat \<times> string) list" where
  \<comment> \<open>An alternative of two characters, read as a number (\<open>int\<close> skips a leading space).\<close>
  "two_chars p q s =
     (case s of
        a # b # r \<Rightarrow>
          (if p a \<and> q b then [((if a = CHR '' '' then 0 else 10 * digit_val a) + digit_val b, r)]
           else [])
      | _ \<Rightarrow> [])"

definition one_char :: "(char \<Rightarrow> bool) \<Rightarrow> string \<Rightarrow> (nat \<times> string) list" where
  "one_char p s = (case s of a # r \<Rightarrow> (if p a then [(digit_val a, r)] else []) | [] \<Rightarrow> [])"

definition between :: "char \<Rightarrow> char \<Rightarrow> char \<Rightarrow> bool" where
  "between lo hi c = (lo \<le> c \<and> c \<le> hi)"

definition month_part :: "string \<Rightarrow> (nat \<times> string) list" where
  "month_part s =
     two_chars (\<lambda>c. c = CHR ''1'') (between CHR ''0'' CHR ''2'') s @
     two_chars (\<lambda>c. c = CHR ''0'') (between CHR ''1'' CHR ''9'') s @
     one_char (between CHR ''1'' CHR ''9'') s"

definition day_part :: "string \<Rightarrow> (nat \<times> string) list" where
  "day_part s =
     two_chars (\<lambda>c. c = CHR ''3'') (between CHR ''0'' CHR ''1'') s @
     two_chars (between CHR ''1'' CHR ''2'') is_digit s @
     two_chars (\<lambda>c. c = CHR ''0'') (between CHR ''1'' CHR ''9'') s @
     one_char (between CHR ''1'' CHR ''9'') s @
     two_chars (\<lambda>c. c = CHR '' '') (between CHR ''1'' CHR ''9'') s"

definition date_matches :: "string \<Rightarrow> ((nat \<times> nat \<times> nat) \<times> string) list" where
  "date_matches s =
     [((y, m, d), r5). (y, r1) \<leftarrow> year_part s, r2 \<leftarrow> hyphen r1, (m, r3) \<leftarrow> month_part r2,
                       r4 \<leftarrow> hyphen r3, (d, r5) \<leftarrow> day_part r4]"

definition strptime :: "string \<Rightarrow> (nat \<times> nat \<times> nat) option" where
  \<comment> \<open>\<open>None\<close> is \<open>ValueError\<close>.\<close>
  "strptime s =
     (case date_matches s of
        [] \<Rightarrow> None
      | (dt, rest) # _ \<Rightarrow>
          (case dt of (y, m, d) \<Rightarrow>
             if rest \<noteq> [] then None
             else if y < 1 \<or> days_in_month y m < d then None
             else Some (y, m, d)))"

section \<open>Floating-point values\<close>

text \<open>
  A Python \<open>float\<close> is a binary64 value: a finite number, an infinity or NaN. A finite
  value is modelled by the real number it denotes (the two zeros are one), and
  \<open>binary64\<close> takes a real to the nearest such value, ties to the even one, and to an
  infinity beyond the largest, as \<open>float(s)\<close> does with the value of a literal.
\<close>

datatype pyfloat = Finite real | PosInf | NegInf | NaN

fun py_lt :: "pyfloat \<Rightarrow> pyfloat \<Rightarrow> bool" where
  "py_lt (Finite a) (Finite b) = (a < b)"
| "py_lt (Finite a) PosInf = True"
| "py_lt NegInf (Finite b) = True"
| "py_lt NegInf PosInf = True"
| "py_lt _ _ = False"

definition py_min :: "pyfloat \<Rightarrow> pyfloat \<Rightarrow> pyfloat" where
  \<comment> \<open>\<open>min(a, b)\<close>: the second argument only when it is smaller.\<close>
  "py_min a b = (if py_lt b a then b else a)"

definition py_max :: "pyfloat \<Rightarrow> pyfloat \<Rightarrow> pyfloat" where
  \<comment> \<open>\<open>max(a, b)\<close>: the second argument only when it is greater.\<close>
  "py_max a b = (if py_lt a b then b else a)"

definition round_half_even :: "real \<Rightarrow> int" where
  "round_half_even x =
     (let f = \<lfloor>x\<rfloor>; d = x - of_int f
      in if d < 1 / 2 then f else if 1 / 2 < d then f + 1 else if even f then f else f + 1)"

definition pow2 :: "int \<Rightarrow> real" where
  "pow2 k = (if 0 \<le> k then 2 ^ nat k else 1 / 2 ^ nat (- k))"

definition binary64 :: "real \<Rightarrow> pyfloat" where
  \<comment> \<open>The exponent is that of the value, not below -1022 (where the subnormal numbers
     begin); the value is rounded to a multiple of 2 to the exponent less 52.\<close>
  "binary64 x =
     (if x = 0 then Finite 0
      else let q = pow2 (max \<lfloor>log 2 \<bar>x\<bar>\<rfloor> (- 1022) - 52);
               r = of_int (round_half_even (\<bar>x\<bar> / q)) * q
           in if pow2 1024 \<le> r then (if x < 0 then NegInf else PosInf)
              else Finite (if x < 0 then - r else r))"

subsection \<open>\<open>float(s)\<close> on text\<close>

definition float_space :: "char \<Rightarrow> bool" where
  \<comment> \<open>What \<open>float\<close> skips at both ends: the ASCII white space, and the code points 133
     and 160, which it first turns into spaces.\<close>
  "float_space c =
     (let n = (of_char c :: nat) in (9 \<le> n \<and> n \<le> 13) \<or> n = 32 \<or> n = 133 \<or> n = 160)"

definition strip_float :: "string \<Rightarrow> string" where
  "strip_float s = rev (dropWhile float_space (rev (dropWhile float_space s)))"

fun underscores_ok :: "char \<Rightarrow> string \<Rightarrow> bool" where
  \<comment> \<open>Every underscore stands between two digits; the first argument is the character
     before.\<close>
  "underscores_ok prev [] = (prev \<noteq> CHR ''_'')"
| "underscores_ok prev (c # cs) =
     ((if c = CHR ''_'' then is_digit prev else (prev = CHR ''_'' \<longrightarrow> is_digit c)) \<and>
      underscores_ok c cs)"

definition digits_val :: "string \<Rightarrow> nat" where
  "digits_val ds = foldl (\<lambda>a c. 10 * a + digit_val c) 0 ds"

definition split_sign :: "string \<Rightarrow> bool \<times> string" where
  \<comment> \<open>An optional sign: whether it is a minus, and the text after it.\<close>
  "split_sign s =
     (case s of
        c # r \<Rightarrow> (if c = CHR ''-'' then (True, r) else if c = CHR ''+'' then (False, r) else (False, s))
      | [] \<Rightarrow> (False, s))"

definition parse_exponent :: "string \<Rightarrow> int option" where
  \<comment> \<open>The rest of a number: nothing, or \<open>e\<close> or \<open>E\<close>, an optional sign and digits.\<close>
  "parse_exponent r =
     (case r of
        [] \<Rightarrow> Some 0
      | c # r1 \<Rightarrow>
          (if c = CHR ''e'' \<or> c = CHR ''E''
           then (case split_sign r1 of (neg, ds) \<Rightarrow>
                   if ds \<noteq> [] \<and> list_all is_digit ds
                   then Some (if neg then - int (digits_val ds) else int (digits_val ds))
                   else None)
           else None))"

definition scale10 :: "real \<Rightarrow> int \<Rightarrow> real" where
  "scale10 x e = (if 0 \<le> e then x * 10 ^ nat e else x / 10 ^ nat (- e))"

definition parse_number :: "string \<Rightarrow> real option" where
  \<comment> \<open>Digits, an optional point and digits (at least one digit in all), an optional
     exponent, and nothing after: the exact value of the literal.\<close>
  "parse_number v =
     (let ip = takeWhile is_digit v;
          r1 = dropWhile is_digit v;
          (fp, r2) = (case r1 of
                        c # r \<Rightarrow> (if c = CHR ''.'' then (takeWhile is_digit r, dropWhile is_digit r)
                                  else ([], r1))
                      | [] \<Rightarrow> ([], r1))
      in if ip = [] \<and> fp = [] then None
         else (case parse_exponent r2 of
                 None \<Rightarrow> None
               | Some e \<Rightarrow> Some (scale10 (real (digits_val (ip @ fp))) (e - int (length fp)))))"

definition py_float :: "string \<Rightarrow> pyfloat option" where
  \<comment> \<open>\<open>float(s)\<close> for a \<open>str\<close>; \<open>None\<close> is \<open>ValueError\<close>.\<close>
  "py_float s =
     (let t = strip_float s
      in if \<not> underscores_ok (CHR 0x00) t then None
         else (case split_sign (filter (\<lambda>c. c \<noteq> CHR ''_'') t) of (neg, v) \<Rightarrow>
                 (case parse_number v of
                    Some x \<Rightarrow> Some (binary64 (if neg then - x else x))
                  | None \<Rightarrow>
                      (let w = map lower_char v
                       in if w = ''inf'' \<or> w = ''infinity'' then Some (if neg then NegInf else PosInf)
                          else if w = ''nan'' then Some NaN
                          else None))))"

definition marks_value :: "string \<Rightarrow> pyfloat" where
  \<comment> \<open>The \<open>try\<close> block of \<open>marks()\<close>: the value stored for one marks field.\<close>
  "marks_value mark_str =
     (case py_float mark_str of
        Some v \<Rightarrow> py_max (Finite 0) (py_min (Finite 100) v)
      | None \<Rightarrow> Finite 0)"

definition clamp_marks :: "real \<Rightarrow> real" where
  \<comment> \<open>The specification's clamp into [0, 100].\<close>
  "clamp_marks x = (if x < 0 then 0 else if 100 < x then 100 else x)"

definition claimed_marks :: "string \<Rightarrow> pyfloat" where
  \<comment> \<open>The specification's rule for a marks field: a text that parses as a real number
     gives the number clamped, any other text gives 0.\<close>
  "claimed_marks mark_str =
     (case py_float mark_str of
        Some (Finite x) \<Rightarrow> Finite (clamp_marks x)
      | _ \<Rightarrow> Finite 0)"

section \<open>The database\<close>

text \<open>
  The two tables of \<open>init_db\<close>, each a list of rows in rowid order, and for each the
  largest id given so far (\<open>AUTOINCREMENT\<close> never gives an id twice).
\<close>

record student =
  sid :: nat
  roll_no :: string
  name :: string
  semester :: int
  marks :: pyfloat
  total_attendance :: int
  total_classes :: int

record attendance_record =
  rid :: nat
  date :: string
  student_id :: nat
  status :: string

record db =
  students :: "student list"
  attendance_records :: "attendance_record list"
  students_seq :: nat
  attendance_seq :: nat

definition init_db :: db where
  "init_db = \<lparr>students = [], attendance_records = [], students_seq = 0, attendance_seq = 0\<rparr>"

definition students_by_roll :: "db \<Rightarrow> student list" where
  \<comment> \<open>\<open>SELECT * FROM students ORDER BY roll_no\<close>\<close>
  "students_by_roll s = sort_key roll_no (students s)"

datatype flash = Flash string string

definition insert_student :: "string \<Rightarrow> string \<Rightarrow> int \<Rightarrow> db \<Rightarrow> db option" where
  \<comment> \<open>\<open>INSERT INTO students (roll_no, name, semester) VALUES (?, ?, ?)\<close>; \<open>None\<close> is
     \<open>sqlite3.IntegrityError\<close>, raised when the roll number is in the table already.
     The other columns take their defaults.\<close>
  "insert_student roll nm sem s =
     (if roll \<in> set (map roll_no (students s)) then None
      else Some (s\<lparr>students := students s @
                      [\<lparr>sid = students_seq s + 1, roll_no = roll, name = nm, semester = sem,
                        marks = Finite 0, total_attendance = 0, total_classes = 0\<rparr>],
                    students_seq := students_seq s + 1\<rparr>))"

definition students_post :: "string \<Rightarrow> string \<Rightarrow> int option \<Rightarrow> db \<Rightarrow> flash \<times> db" where
  \<comment> \<open>The POST branch of \<open>students()\<close>. \<open>semester_field\<close> is the value of
     \<open>int(semester)\<close>, \<open>None\<close> when it raises \<open>ValueError\<close>.\<close>
  "students_post roll_field name_field semester_field s =
     (let roll = strip roll_field;
          nm = strip name_field;
          (valid, msg) = validate_roll_number roll
      in if \<not> valid then (Flash msg ''error'', s)
         else case semester_field of
           None \<Rightarrow> (Flash ''Invalid semester.'' ''error'', s)
         | Some sem \<Rightarrow>
             if sem < 1 \<or> sem > 8 then (Flash ''Semester must be between 1 and 8.'' ''error'', s)
             else if nm = [] then (Flash ''Name cannot be empty.'' ''error'', s)
             else (case insert_student (upper roll) nm sem s of
               Some s' \<Rightarrow> (Flash (''Student '' @ roll @ '' added successfully!'') ''success'', s')
             | None \<Rightarrow> (Flash (''Roll number '' @ roll @ '' already exists.'') ''error'', s)))"

definition delete_student :: "nat \<Rightarrow> db \<Rightarrow> flash \<times> db" where
  "delete_student i s =
     (Flash ''Student deleted.'' ''success'',
      s\<lparr>attendance_records := filter (\<lambda>r. student_id r \<noteq> i) (attendance_records s),
        students := filter (\<lambda>r. sid r \<noteq> i) (students s)\<rparr>)"

section \<open>Marking attendance\<close>

text \<open>
  The POST branch of \<open>attendance()\<close> sends the database a sequence of statements and
  commits once at the end. The sequence depends on the rows read before the first write:
  the students in roll-number order and the day's existing records.
\<close>

datatype stmt =
    AddClasses int nat
    \<comment> \<open>\<open>UPDATE students SET total_classes = total_classes + k WHERE id = ?\<close>, \<open>k\<close> being 1
       or -1\<close>
  | AddAttendance int nat
    \<comment> \<open>\<open>UPDATE students SET total_attendance = total_attendance + k WHERE id = ?\<close>\<close>
  | DeleteDate string
    \<comment> \<open>\<open>DELETE FROM attendance_records WHERE date = ?\<close>\<close>
  | InsertRecord string nat string
    \<comment> \<open>\<open>INSERT INTO attendance_records (date, student_id, status) VALUES (?, ?, ?)\<close>\<close>

fun exec :: "stmt \<Rightarrow> db \<Rightarrow> db" where
  "exec (AddClasses k i) s =
     s\<lparr>students := map (\<lambda>r. if sid r = i then r\<lparr>total_classes := total_classes r + k\<rparr> else r)
                       (students s)\<rparr>"
| "exec (AddAttendance k i) s =
     s\<lparr>students := map (\<lambda>r. if sid r = i then r\<lparr>total_attendance := total_attendance r + k\<rparr> else r)
                       (students s)\<rparr>"
| "exec (DeleteDate d) s =
     s\<lparr>attendance_records := filter (\<lambda>r. date r \<noteq> d) (attendance_records s)\<rparr>"
| "exec (InsertRecord d i st) s =
     s\<lparr>attendance_records := attendance_records s @
          [\<lparr>rid = attendance_seq s + 1, date = d, student_id = i, status = st\<rparr>],
       attendance_seq := attendance_seq s + 1\<rparr>"

definition existing_records :: "string \<Rightarrow> db \<Rightarrow> attendance_record list" where
  \<comment> \<open>\<open>SELECT student_id, status FROM attendance_records WHERE date = ?\<close>\<close>
  "existing_records d s = filter (\<lambda>r. date r = d) (attendance_records s)"

definition revert_one :: "attendance_record \<Rightarrow> stmt list" where
  \<comment> \<open>The body of the loop over the day's existing records.\<close>
  "revert_one r =
     AddClasses (- 1) (student_id r) #
     (if status r = ''present'' then [AddAttendance (- 1) (student_id r)] else [])"

definition revert_stmts :: "string \<Rightarrow> attendance_record list \<Rightarrow> stmt list" where
  "revert_stmts d existing =
     (if existing = [] then [] else concat (map revert_one existing) @ [DeleteDate d])"

definition form_status :: "(nat \<rightharpoonup> string) \<Rightarrow> nat \<Rightarrow> string" where
  \<comment> \<open>\<open>request.form.get(f'status_{id}', 'absent')\<close>; the form is given by its status
     fields, keyed by student id.\<close>
  "form_status form i = (case form i of Some v \<Rightarrow> v | None \<Rightarrow> ''absent'')"

definition mark_one :: "string \<Rightarrow> (nat \<rightharpoonup> string) \<Rightarrow> student \<Rightarrow> stmt list" where
  \<comment> \<open>The body of the loop over the students.\<close>
  "mark_one d form st =
     InsertRecord d (sid st) (form_status form (sid st)) #
     (if form_status form (sid st) = ''present'' then [AddAttendance 1 (sid st)] else []) @
     [AddClasses 1 (sid st)]"

definition mark_stmts :: "string \<Rightarrow> (nat \<rightharpoonup> string) \<Rightarrow> student list \<Rightarrow> stmt list" where
  "mark_stmts d form students_list = concat (map (mark_one d form) students_list)"

definition attendance_stmts :: "string \<Rightarrow> (nat \<rightharpoonup> string) \<Rightarrow> db \<Rightarrow> stmt list" where
  "attendance_stmts date_str form s =
     revert_stmts date_str (existing_records date_str s) @
     mark_stmts date_str form (students_by_roll s)"

definition is_sunday :: "string \<Rightarrow> bool" where
  \<comment> \<open>The \<open>try\<close> block: a date that does not parse passes.\<close>
  "is_sunday date_str = (case strptime date_str of Some dt \<Rightarrow> weekday dt = 6 | None \<Rightarrow> False)"

definition future_flash :: flash where
  "future_flash = Flash ''Cannot mark attendance for future dates.'' ''error''"

definition sunday_flash :: flash where
  "sunday_flash = Flash ''Attendance cannot be marked for Sunday.'' ''error''"

definition saved_flash :: "string \<Rightarrow> flash" where
  "saved_flash date_str = Flash (''Attendance saved for '' @ date_str @ ''.'') ''success''"

definition attendance_post :: "string \<Rightarrow> string option \<Rightarrow> (nat \<rightharpoonup> string) \<Rightarrow> db \<Rightarrow> flash \<times> db" where
  \<comment> \<open>\<open>today_str\<close> is the clock's \<open>datetime.now().strftime('%Y-%m-%d')\<close>; \<open>date_field\<close> is
     the form's \<open>date\<close>, \<open>None\<close> when the form has none.\<close>
  "attendance_post today_str date_field form s =
     (let date_str = (case date_field of Some d \<Rightarrow> d | None \<Rightarrow> today_str)
      in if date_str > today_str then (future_flash, s)
         else if is_sunday date_str then (sunday_flash, s)
         else (saved_flash date_str, fold exec (attendance_stmts date_str form s) s))"

subsection \<open>The transaction\<close>

text \<open>
  The handler opens one connection, executes its statements on it and calls \<open>commit\<close>
  last; it catches nothing and never rolls back itself. A connection holds the
  committed database and its own pending copy. When a call raises, the exception leaves
  the handler, the connection is dropped, and SQLite discards what was not committed:
  the database is then the committed one.
\<close>

datatype action = Execute stmt | Commit

fun perform :: "action \<Rightarrow> db \<times> db \<Rightarrow> db \<times> db" where
  \<comment> \<open>On a connection (committed, pending).\<close>
  "perform (Execute c) (committed, pending) = (committed, exec c pending)"
| "perform Commit (committed, pending) = (pending, pending)"

definition attendance_actions :: "string \<Rightarrow> (nat \<rightharpoonup> string) \<Rightarrow> db \<Rightarrow> action list" where
  "attendance_actions date_str form s = map Execute (attendance_stmts date_str form s) @ [Commit]"

definition failing_at :: "nat \<Rightarrow> action list \<Rightarrow> db \<Rightarrow> db" where
  \<comment> \<open>The database after a run in which the first \<open>k\<close> calls succeed and the next one,
     if there is one, raises.\<close>
  "failing_at k acts s = fst (fold perform (take k acts) (s, s))"

section \<open>Marks and sample students\<close>

definition set_marks :: "nat \<Rightarrow> pyfloat \<Rightarrow> db \<Rightarrow> db" where
  \<comment> \<open>\<open>UPDATE students SET marks = ? WHERE id = ?\<close>\<close>
  "set_marks i v s =
     s\<lparr>students := map (\<lambda>r. if sid r = i then r\<lparr>marks := v\<rparr> else r) (students s)\<rparr>"

definition marks_post :: "(nat \<rightharpoonup> string) \<Rightarrow> db \<Rightarrow> flash \<times> db" where
  \<comment> \<open>The form is given by its marks fields, keyed by student id; a missing field reads
     \<open>'0'\<close>.\<close>
  "marks_post form s =
     (Flash ''Marks updated.'' ''success'',
      fold (\<lambda>st. set_marks (sid st)
                    (marks_value (case form (sid st) of Some v \<Rightarrow> v | None \<Rightarrow> ''0'')))
           (students_by_roll s) s)"

definition add_sample :: "string \<times> string \<times> int \<Rightarrow> nat \<times> db \<Rightarrow> nat \<times> db" where
  \<comment> \<open>One round of the loop of \<open>ai_generate_sample\<close>, on (added, database).\<close>
  "add_sample smp acc =
     (case smp of (roll, nm, sem) \<Rightarrow> case acc of (added, s) \<Rightarrow>
        (case insert_student roll nm sem s of
           Some s' \<Rightarrow> (added + 1, s')
         | None \<Rightarrow> (added, s)))"

definition ai_generate_sample :: "(string \<times> string \<times> int) list \<Rightarrow> db \<Rightarrow> flash \<times> db" where
  \<comment> \<open>\<open>sample\<close> is what \<open>generate_sample_students\<close> returned: the random roll numbers,
     names and semesters.\<close>
  "ai_generate_sample sample s =
     (case fold add_sample sample (0, s) of (added, s') \<Rightarrow>
        (Flash (''Generated and added '' @ decimal added @ '' sample student(s).'') ''success'', s'))"

section \<open>The monthly report\<close>

definition strftime_ymd :: "nat \<Rightarrow> nat \<Rightarrow> nat \<Rightarrow> string" where
  \<comment> \<open>\<open>date(y, m, d).strftime('%Y-%m-%d')\<close> with the C library of Linux, which writes a
     year below 1000 without leading zeros.\<close>
  "strftime_ymd y m d = decimal y @ ''-'' @ pad2 m @ ''-'' @ pad2 d"

definition dates_in_month :: "nat \<Rightarrow> nat \<Rightarrow> string list option" where
  \<comment> \<open>\<open>None\<close> is the exception of \<open>calendar.monthrange\<close> for a month that is none, or of
     \<open>date\<close> for a year outside 1 to 9999.\<close>
  "dates_in_month y m =
     (if m < 1 \<or> 12 < m then None
      else if y < 1 \<or> 9999 < y then None
      else Some (map (strftime_ymd y m) [1..<days_in_month y m + 1]))"










section \<open>Requests and reachable states\<close>

datatype request =
    StudentsPost string string "int option"
  | DeleteStudent nat
  | AttendancePost string "string option" "nat \<rightharpoonup> string"
  | MarksPost "nat \<rightharpoonup> string"
  | GenerateSample "(string \<times> string \<times> int) list"

fun handle :: "request \<Rightarrow> db \<Rightarrow> db" where
  "handle (StudentsPost roll nm sem) s = snd (students_post roll nm sem s)"
| "handle (DeleteStudent i) s = snd (delete_student i s)"
| "handle (AttendancePost today_str date_field form) s = snd (attendance_post today_str date_field form s)"
| "handle (MarksPost form) s = snd (marks_post form s)"
| "handle (GenerateSample sample) s = snd (ai_generate_sample sample s)"

inductive reachable :: "db \<Rightarrow> bool" where
  start: "reachable init_db"
| step: "reachable s \<Longrightarrow> reachable (handle rq s)"

definition present_count :: "db \<Rightarrow> nat \<Rightarrow> nat" where
  \<comment> \<open>The number of a student's records with status \<open>present\<close>.\<close>
  "present_count s i =
     length (filter (\<lambda>r. student_id r = i \<and> status r = ''present'') (attendance_records s))"

definition record_count :: "db \<Rightarrow> nat \<Rightarrow> nat" where
  \<comment> \<open>The number of a student's records.\<close>
  "record_count s i = length (filter (\<lambda>r. student_id r = i) (attendance_records s))"

definition record_view :: "db \<Rightarrow> (string \<times> nat \<times> string) list" where
  \<comment> \<open>The records as the specification has them: date, student and status.\<close>
  "record_view s = map (\<lambda>r. (date r, student_id r, status r)) (attendance_records s)"


definition bump :: "int \<Rightarrow> int \<Rightarrow> student \<Rightarrow> student" where
  \<comment> \<open>A row with its two counters moved.\<close>
  "bump a c r = r\<lparr>total_attendance := total_attendance r + a, total_classes := total_classes r + c\<rparr>"

fun new_records :: "string \<Rightarrow> (nat \<rightharpoonup> string) \<Rightarrow> nat \<Rightarrow> student list \<Rightarrow> attendance_record list" where
  \<comment> \<open>The records a day's marking inserts for the students listed, the last id given
     before being \<open>n\<close>.\<close>
  "new_records d form n [] = []"
| "new_records d form n (st # sl) =
     \<lparr>rid = n + 1, date = d, student_id = sid st, status = form_status form (sid st)\<rparr> #
     new_records d form (n + 1) sl"

definition was_counted :: "string \<Rightarrow> db \<Rightarrow> nat \<Rightarrow> nat" where
  \<comment> \<open>How many of the day's existing records are a student's.\<close>
  "was_counted d s i = length (filter (\<lambda>x. student_id x = i) (existing_records d s))"

definition was_present :: "string \<Rightarrow> db \<Rightarrow> nat \<Rightarrow> nat" where
  "was_present d s i =
     length (filter (\<lambda>x. student_id x = i \<and> status x = ''present'') (existing_records d s))"

definition now_counted :: "student list \<Rightarrow> nat \<Rightarrow> nat" where
  \<comment> \<open>How many of the rows listed have the id.\<close>
  "now_counted sl i = length (filter (\<lambda>st. sid st = i) sl)"

definition now_present :: "(nat \<rightharpoonup> string) \<Rightarrow> student list \<Rightarrow> nat \<Rightarrow> nat" where
  "now_present form sl i =
     length (filter (\<lambda>st. sid st = i \<and> form_status form (sid st) = ''present'') sl)"

definition apply_day :: "string \<Rightarrow> (nat \<rightharpoonup> string) \<Rightarrow> db \<Rightarrow> db" where
  \<comment> \<open>The specification's \<open>applyDay\<close> as one step: the day's records replaced, every
     counter moved by what the day now gives less what it gave before.\<close>
  "apply_day d form s =
     s\<lparr>students :=
         map (\<lambda>r. bump (int (now_present form (students_by_roll s) (sid r)) - int (was_present d s (sid r)))
                      (int (now_counted (students_by_roll s) (sid r)) - int (was_counted d s (sid r))) r)
             (students s),
       attendance_records :=
         filter (\<lambda>r. date r \<noteq> d) (attendance_records s) @
         new_records d form (attendance_seq s) (students_by_roll s),
       attendance_seq := attendance_seq s + length (students s)\<rparr>"

definition rejected :: "flash \<Rightarrow> bool" where
  \<comment> \<open>A flash message of the category \<open>error\<close>.\<close>
  "rejected f = (case f of Flash msg category \<Rightarrow> category = ''error'')"

definition consistent :: "db \<Rightarrow> bool" where
  \<comment> \<open>What every reachable state satisfies: ids are unique and not above the sequence,
     records belong to students, counters are the record counts, and no day has two
     records for a student.\<close>
  "consistent s =
     (distinct (map sid (students s)) \<and>
      (\<forall>st \<in> set (students s). sid st \<le> students_seq s) \<and>
      (\<forall>r \<in> set (attendance_records s). student_id r \<in> sid ` set (students s)) \<and>
      (\<forall>st \<in> set (students s).
          total_attendance st = int (present_count s (sid st)) \<and>
          total_classes st = int (record_count s (sid st))) \<and>
      distinct (map (\<lambda>r. (date r, student_id r)) (attendance_records s)))"


section \<open>Example states\<close>

definition two_students :: db where
  "two_students =
     handle (StudentsPost ''cs2'' ''Bina'' (Some 4))
       (handle (StudentsPost ''cs1'' ''Asha'' (Some 3)) init_db)"

definition marked_day :: db where
  "marked_day =
     handle (AttendancePost ''2025-01-10'' (Some ''2025-01-10'') [1 \<mapsto> ''present''])
       two_students"

definition four_days :: db where
  "four_days =
     handle (AttendancePost ''2025-01-10'' (Some ''2025-01-09'') Map.empty)
       (handle (AttendancePost ''2025-01-10'' (Some ''2025-01-08'') [1 \<mapsto> ''present''])
         (handle (AttendancePost ''2025-01-10'' (Some ''2025-01-07'') [1 \<mapsto> ''present''])
           (handle (AttendancePost ''2025-01-10'' (Some ''2025-01-06'') [1 \<mapsto> ''present''])
             (handle (StudentsPost ''cs1'' ''Asha'' (Some 3)) init_db))))"




section \<open>The example states, evaluated\<close>

lemma char_of_eq: "n < 256 \<Longrightarrow> (char_of (n::nat) = c) = (n = of_char c)"
  by (metis of_char_of char_of_char mod_less)

lemmas eval_defs = students_post_def validate_roll_number_def strip_def isspace_def
  re_match_roll_def roll_char_def insert_student_def init_db_def upper_def upper_char_def char_of_eq
  delete_student_def

lemma two_students_eq:
  "two_students = \<lparr>students =
      [\<lparr>sid = 1, roll_no = ''CS1'', name = ''Asha'', semester = 3, marks = Finite 0,
         total_attendance = 0, total_classes = 0\<rparr>,
       \<lparr>sid = 2, roll_no = ''CS2'', name = ''Bina'', semester = 4, marks = Finite 0,
         total_attendance = 0, total_classes = 0\<rparr>],
     attendance_records = [], students_seq = 2, attendance_seq = 0\<rparr>"
  by (simp add: two_students_def eval_defs)

lemma strptime_0110: "strptime ''2025-01-10'' = Some (2025, 1, 10)"
  by (simp add: strptime_def date_matches_def year_part_def hyphen_def month_part_def day_part_def
      two_chars_def one_char_def between_def is_digit_def digit_val_def days_in_month_def is_leap_def)

lemma weekday_0110: "weekday (2025, 1, 10) = 4"
  by (simp add: weekday_def ymd2ord_def days_before_year_def days_before_month_def is_leap_def)

lemma marked_day_eq:
  "marked_day = \<lparr>students =
      [\<lparr>sid = 1, roll_no = ''CS1'', name = ''Asha'', semester = 3, marks = Finite 0,
         total_attendance = 1, total_classes = 1\<rparr>,
       \<lparr>sid = 2, roll_no = ''CS2'', name = ''Bina'', semester = 4, marks = Finite 0,
         total_attendance = 0, total_classes = 1\<rparr>],
     attendance_records =
      [\<lparr>rid = 1, date = ''2025-01-10'', student_id = 1, status = ''present''\<rparr>,
       \<lparr>rid = 2, date = ''2025-01-10'', student_id = 2, status = ''absent''\<rparr>],
     students_seq = 2, attendance_seq = 2\<rparr>"
  by (simp add: marked_day_def two_students_eq attendance_post_def is_sunday_def strptime_0110
      weekday_0110 attendance_stmts_def existing_records_def revert_stmts_def revert_one_def mark_stmts_def mark_one_def
      students_by_roll_def form_status_def Let_def saved_flash_def weekday_def ymd2ord_def days_before_year_def days_before_month_def is_leap_def)

lemmas date_eval = strptime_def date_matches_def year_part_def hyphen_def month_part_def day_part_def
      two_chars_def one_char_def between_def is_digit_def digit_val_def days_in_month_def is_leap_def
      weekday_def ymd2ord_def days_before_year_def days_before_month_def is_sunday_def

lemmas day_eval = attendance_post_def attendance_stmts_def existing_records_def revert_stmts_def
      revert_one_def mark_stmts_def mark_one_def students_by_roll_def form_status_def Let_def
      saved_flash_def

lemma four_days_eq:
  "four_days = \<lparr>students =
      [\<lparr>sid = 1, roll_no = ''CS1'', name = ''Asha'', semester = 3, marks = Finite 0,
         total_attendance = 3, total_classes = 4\<rparr>],
     attendance_records =
      [\<lparr>rid = 1, date = ''2025-01-06'', student_id = 1, status = ''present''\<rparr>,
       \<lparr>rid = 2, date = ''2025-01-07'', student_id = 1, status = ''present''\<rparr>,
       \<lparr>rid = 3, date = ''2025-01-08'', student_id = 1, status = ''present''\<rparr>,
       \<lparr>rid = 4, date = ''2025-01-09'', student_id = 1, status = ''absent''\<rparr>],
     students_seq = 1, attendance_seq = 4\<rparr>"
  by (simp add: four_days_def eval_defs date_eval day_eval)

lemma scenario_present:
  "snd (attendance_post ''2025-01-10'' (Some ''2025-01-10'') [1 \<mapsto> ''present''] four_days) =
   \<lparr>students =
      [\<lparr>sid = 1, roll_no = ''CS1'', name = ''Asha'', semester = 3, marks = Finite 0,
         total_attendance = 4, total_classes = 5\<rparr>],
     attendance_records =
      [\<lparr>rid = 1, date = ''2025-01-06'', student_id = 1, status = ''present''\<rparr>,
       \<lparr>rid = 2, date = ''2025-01-07'', student_id = 1, status = ''present''\<rparr>,
       \<lparr>rid = 3, date = ''2025-01-08'', student_id = 1, status = ''present''\<rparr>,
       \<lparr>rid = 4, date = ''2025-01-09'', student_id = 1, status = ''absent''\<rparr>,
       \<lparr>rid = 5, date = ''2025-01-10'', student_id = 1, status = ''present''\<rparr>],
     students_seq = 1, attendance_seq = 5\<rparr>"
  by (simp add: four_days_eq date_eval day_eval)

lemma scenario_absent:
  "snd (attendance_post ''2025-01-10'' (Some ''2025-01-10'') [1 \<mapsto> ''absent'']
     (snd (attendance_post ''2025-01-10'' (Some ''2025-01-10'') [1 \<mapsto> ''present''] four_days))) =
   \<lparr>students =
      [\<lparr>sid = 1, roll_no = ''CS1'', name = ''Asha'', semester = 3, marks = Finite 0,
         total_attendance = 3, total_classes = 5\<rparr>],
     attendance_records =
      [\<lparr>rid = 1, date = ''2025-01-06'', student_id = 1, status = ''present''\<rparr>,
       \<lparr>rid = 2, date = ''2025-01-07'', student_id = 1, status = ''present''\<rparr>,
       \<lparr>rid = 3, date = ''2025-01-08'', student_id = 1, status = ''present''\<rparr>,
       \<lparr>rid = 4, date = ''2025-01-09'', student_id = 1, status = ''absent''\<rparr>,
       \<lparr>rid = 6, date = ''2025-01-10'', student_id = 1, status = ''absent''\<rparr>],
     students_seq = 1, attendance_seq = 6\<rparr>"
  unfolding scenario_present
  by (simp add: date_eval day_eval)

section \<open>Roll numbers\<close>

lemma strip_last: "strip s \<noteq> [] \<Longrightarrow> \<not> isspace (last (strip s))"
proof -
  assume a: "strip s \<noteq> []"
  define y where "y = dropWhile isspace (rev (dropWhile isspace s))"
  have s: "strip s = rev y" by (simp add: strip_def y_def)
  with a have "y \<noteq> []" by simp
  then have "\<not> isspace (hd y)" unfolding y_def by (rule hd_dropWhile)
  moreover have "last (rev y) = hd y" using \<open>y \<noteq> []\<close> by (simp add: last_rev)
  ultimately show ?thesis by (simp add: s)
qed

lemma newline_isspace: "isspace (CHR 0x0A)"
  by (simp add: isspace_def)

lemma re_match_roll_whole:
  assumes "t = [] \<or> \<not> isspace (last t)"
  shows "re_match_roll t = (3 \<le> length t \<and> length t \<le> 15 \<and> list_all roll_char t)"
proof
  assume "re_match_roll t"
  then obtain k where k: "3 \<le> k" "k < 16" "k \<le> length t" "list_all roll_char (take k t)"
      "drop k t = [] \<or> drop k t = [CHR 0x0A]"
    unfolding re_match_roll_def list_ex_iff set_upt by auto
  have "drop k t \<noteq> [CHR 0x0A]"
  proof
    assume d: "drop k t = [CHR 0x0A]"
    then have "t \<noteq> []" by auto
    have "last t = last (drop k t)" using d by (metis last_drop drop_eq_Nil not_le list.distinct(1))
    then have "isspace (last t)" using d newline_isspace by simp
    with assms \<open>t \<noteq> []\<close> show False by simp
  qed
  with k have "drop k t = []" by simp
  then have "length t \<le> k" by simp
  with k have "k = length t" by simp
  with k show "3 \<le> length t \<and> length t \<le> 15 \<and> list_all roll_char t" by simp
next
  assume a: "3 \<le> length t \<and> length t \<le> 15 \<and> list_all roll_char t"
  then have "length t \<in> set [3..<16]" unfolding set_upt by simp
  moreover have "length t \<le> length t \<and> list_all roll_char (take (length t) t) \<and>
        (drop (length t) t = [] \<or> drop (length t) t = [CHR 0x0A])" using a by simp
  ultimately show "re_match_roll t" unfolding re_match_roll_def list_ex_iff by blast
qed

lemma validate_iff: "fst (validate_roll_number roll) = roll_number_accepted roll"
proof -
  have "strip roll = [] \<or> \<not> isspace (last (strip roll))" using strip_last by blast
  from re_match_roll_whole[OF this] show ?thesis
    by (auto simp: validate_roll_number_def roll_number_accepted_def strip_def)
qed

lemma last_dropWhile_ne: "dropWhile P xs \<noteq> [] \<Longrightarrow> last (dropWhile P xs) = last xs"
  by (induction xs) (auto split: if_splits)

lemma dropWhile_id: "xs = [] \<or> \<not> P (hd xs) \<Longrightarrow> dropWhile P xs = xs"
  by (cases xs) auto

lemma strip_strip: "strip (strip s) = strip s"
proof -
  define a where "a = dropWhile isspace s"
  define y where "y = dropWhile isspace (rev a)"
  have s: "strip s = rev y" by (simp add: strip_def y_def a_def)
  have front: "rev y = [] \<or> \<not> isspace (hd (rev y))"
  proof (cases "y = []")
    case True then show ?thesis by simp
  next
    case False
    then have "last y = last (rev a)" unfolding y_def by (rule last_dropWhile_ne)
    moreover have "rev a \<noteq> []" using False y_def by auto
    then have "a \<noteq> []" by simp
    then have "\<not> isspace (hd a)" unfolding a_def by (rule hd_dropWhile)
    moreover have "last (rev a) = hd a" using \<open>a \<noteq> []\<close> by (simp add: last_rev)
    moreover have "hd (rev y) = last y" using False by (simp add: hd_rev)
    ultimately show ?thesis by simp
  qed
  have "dropWhile isspace (rev y) = rev y" using front by (rule dropWhile_id)
  moreover have "dropWhile isspace y = y" unfolding y_def by simp
  ultimately have "strip (rev y) = rev y" by (simp add: strip_def)
  then show ?thesis by (simp add: s)
qed

lemma upper_no_lower: "list_all (\<lambda>c. \<not> (CHR ''a'' \<le> c \<and> c \<le> CHR ''z'')) (upper s)"
  by (induction s) (auto simp: upper_def upper_char_def less_eq_char_def)

lemma roll_accepted_strip: "roll_number_accepted (strip roll) = roll_number_accepted roll"
  by (simp add: roll_number_accepted_def strip_strip)

lemma validate_cases:
  "validate_roll_number roll = (True, ''Valid roll number.'') \<or>
   validate_roll_number roll = (False, ''Roll number cannot be empty.'') \<or>
   validate_roll_number roll =
     (False, ''Roll number must be 3-15 alphanumeric characters (hyphens allowed).'')"
  by (simp add: validate_roll_number_def)

lemma students_post_rejected:
  assumes "\<not> roll_number_accepted roll"
  shows "students_post roll nm sem s = (Flash (snd (validate_roll_number (strip roll))) ''error'', s)"
proof -
  have "\<not> fst (validate_roll_number (strip roll))"
    using assms by (simp add: validate_iff roll_accepted_strip)
  then show ?thesis
    by (cases "validate_roll_number (strip roll)") (simp add: students_post_def Let_def)
qed

lemma students_post_stored:
  assumes "snd (students_post roll nm sem s) \<noteq> s"
  shows "\<exists>row. students (snd (students_post roll nm sem s)) = students s @ [row] \<and>
               roll_no row = upper (strip roll)"
  using assms
  by (auto simp: students_post_def Let_def insert_student_def
           split: prod.splits option.splits if_splits)

text \<open>
  Claim C7. \<open>validate_roll_number\<close> accepts a roll number exactly when, after trimming
  white space, it is non-empty and consists of 3 to 15 characters of \<open>[A-Za-z0-9-]\<close>;
  its answer is \<open>True\<close> with a message or \<open>False\<close> with one of two reasons. A rejected
  roll number leaves the database as it was and flashes that reason; whenever the POST
  changes the database it has appended one row whose roll number is the trimmed input
  in upper case, in which no lower-case letter is left. \<open>C$1\<close> is rejected, \<open>CS1\<close> is
  accepted and stored as \<open>CS1\<close>.
\<close>

theorem roll_number_validation:
  "fst (validate_roll_number roll) = roll_number_accepted roll \<and>
   (validate_roll_number roll = (True, ''Valid roll number.'') \<or>
    validate_roll_number roll = (False, ''Roll number cannot be empty.'') \<or>
    validate_roll_number roll =
      (False, ''Roll number must be 3-15 alphanumeric characters (hyphens allowed).'')) \<and>
   (\<not> roll_number_accepted roll \<longrightarrow>
      students_post roll nm sem s = (Flash (snd (validate_roll_number (strip roll))) ''error'', s)) \<and>
   (snd (students_post roll nm sem s) \<noteq> s \<longrightarrow>
      roll_number_accepted roll \<and>
      (\<exists>row. students (snd (students_post roll nm sem s)) = students s @ [row] \<and>
             roll_no row = upper (strip roll))) \<and>
   list_all (\<lambda>c. \<not> (CHR ''a'' \<le> c \<and> c \<le> CHR ''z'')) (upper (strip roll)) \<and>
   fst (validate_roll_number ''C$1'') = False \<and>
   fst (validate_roll_number ''CS1'') = True \<and>
   map roll_no (students (snd (students_post ''CS1'' ''Asha'' (Some 3) init_db))) = [''CS1'']"
proof -
  have ex1: "fst (validate_roll_number ''C$1'') = False"
    by (simp add: validate_roll_number_def strip_def isspace_def re_match_roll_def roll_char_def)
  have ex2: "fst (validate_roll_number ''CS1'') = True"
    by (simp add: validate_roll_number_def strip_def isspace_def re_match_roll_def roll_char_def)
  have ex3: "map roll_no (students (snd (students_post ''CS1'' ''Asha'' (Some 3) init_db))) = [''CS1'']"
    by (simp add: students_post_def validate_roll_number_def strip_def isspace_def
        re_match_roll_def roll_char_def insert_student_def init_db_def upper_def upper_char_def)
  have rej: "\<not> roll_number_accepted roll \<longrightarrow>
      students_post roll nm sem s = (Flash (snd (validate_roll_number (strip roll))) ''error'', s)"
    using students_post_rejected by blast
  have sto: "snd (students_post roll nm sem s) \<noteq> s \<longrightarrow>
      roll_number_accepted roll \<and>
      (\<exists>row. students (snd (students_post roll nm sem s)) = students s @ [row] \<and>
             roll_no row = upper (strip roll))"
    using students_post_stored students_post_rejected by (metis snd_conv)
  show ?thesis
    by (rule conjI validate_iff validate_cases rej sto upper_no_lower ex1 ex2 ex3)+
qed

theorem roll_number_validation_witness:
  "\<not> roll_number_accepted ''ab'' \<and>
   students_post ''ab'' ''Asha'' (Some 3) init_db =
     (Flash ''Roll number must be 3-15 alphanumeric characters (hyphens allowed).'' ''error'', init_db) \<and>
   snd (students_post '' cs-1 '' ''Asha'' (Some 3) init_db) \<noteq> init_db \<and>
   roll_number_accepted '' cs-1 '' \<and>
   map roll_no (students (snd (students_post '' cs-1 '' ''Asha'' (Some 3) init_db))) = [''CS-1'']"
proof -
  have a: "\<not> roll_number_accepted ''ab''"
    by (simp add: roll_number_accepted_def strip_def isspace_def)
  have v: "snd (validate_roll_number (strip ''ab'')) =
      ''Roll number must be 3-15 alphanumeric characters (hyphens allowed).''"
    by (simp add: validate_roll_number_def strip_def isspace_def re_match_roll_def roll_char_def)
  have b: "snd (students_post '' cs-1 '' ''Asha'' (Some 3) init_db) \<noteq> init_db"
    by (simp add: students_post_def validate_roll_number_def strip_def isspace_def
        re_match_roll_def roll_char_def insert_student_def init_db_def)
  have u: "upper (strip '' cs-1 '') = ''CS-1''"
    by (simp add: strip_def isspace_def upper_def upper_char_def char_of_eq)
  from roll_number_validation [of "''ab''" "''Asha''" "Some 3" init_db] a v
  have c1: "students_post ''ab'' ''Asha'' (Some 3) init_db =
     (Flash ''Roll number must be 3-15 alphanumeric characters (hyphens allowed).'' ''error'', init_db)"
    by simp
  from roll_number_validation [of "'' cs-1 ''" "''Asha''" "Some 3" init_db] b
  obtain row where acc: "roll_number_accepted '' cs-1 ''"
    and row: "students (snd (students_post '' cs-1 '' ''Asha'' (Some 3) init_db)) =
                students init_db @ [row]" "roll_no row = upper (strip '' cs-1 '')"
    by blast
  have c2: "map roll_no (students (snd (students_post '' cs-1 '' ''Asha'' (Some 3) init_db))) =
      [''CS-1'']"
    using row u by (simp add: init_db_def)
  from a b c1 c2 acc show ?thesis by (intro conjI)
qed

section \<open>Deleting a student\<close>

lemma filter_other_key:
  "j \<noteq> i \<Longrightarrow> filter (\<lambda>r. f r = j) (filter (\<lambda>r. f r \<noteq> i) xs) = filter (\<lambda>r. f r = j) xs"
  by (induction xs) auto

text \<open>
  Claim C6. Deleting student \<open>i\<close> leaves exactly the attendance records of the other
  students and exactly the rows of the other students; for every other student \<open>j\<close>
  the records and the row (with all its fields) are what they were.
\<close>

theorem delete_student_frame:
  "set (attendance_records (snd (delete_student i s))) =
     {r \<in> set (attendance_records s). student_id r \<noteq> i} \<and>
   set (students (snd (delete_student i s))) = {st \<in> set (students s). sid st \<noteq> i} \<and>
   (j \<noteq> i \<longrightarrow>
      filter (\<lambda>r. student_id r = j) (attendance_records (snd (delete_student i s))) =
        filter (\<lambda>r. student_id r = j) (attendance_records s) \<and>
      filter (\<lambda>st. sid st = j) (students (snd (delete_student i s))) =
        filter (\<lambda>st. sid st = j) (students s))"
proof -
  have "set (attendance_records (snd (delete_student i s))) =
     {r \<in> set (attendance_records s). student_id r \<noteq> i}"
    by (auto simp: delete_student_def)
  moreover have "set (students (snd (delete_student i s))) = {st \<in> set (students s). sid st \<noteq> i}"
    by (auto simp: delete_student_def)
  moreover have "j \<noteq> i \<longrightarrow>
      filter (\<lambda>r. student_id r = j) (attendance_records (snd (delete_student i s))) =
        filter (\<lambda>r. student_id r = j) (attendance_records s) \<and>
      filter (\<lambda>st. sid st = j) (students (snd (delete_student i s))) =
        filter (\<lambda>st. sid st = j) (students s)"
    by (simp add: delete_student_def filter_other_key del: filter_filter)
  ultimately show ?thesis by (intro conjI)
qed

theorem delete_student_frame_witness:
  "(2::nat) \<noteq> 1 \<and>
   filter (\<lambda>r. student_id r = 2) (attendance_records (snd (delete_student 1 marked_day))) =
     [\<lparr>rid = 2, date = ''2025-01-10'', student_id = 2, status = ''absent''\<rparr>] \<and>
   filter (\<lambda>st. sid st = 2) (students (snd (delete_student 1 marked_day))) =
     [\<lparr>sid = 2, roll_no = ''CS2'', name = ''Bina'', semester = 4, marks = Finite 0,
       total_attendance = 0, total_classes = 1\<rparr>] \<and>
   set (attendance_records (snd (delete_student 1 marked_day))) =
     {\<lparr>rid = 2, date = ''2025-01-10'', student_id = 2, status = ''absent''\<rparr>}"
proof -
  have n: "(2::nat) \<noteq> 1" by simp
  have recs: "attendance_records marked_day =
      [\<lparr>rid = 1, date = ''2025-01-10'', student_id = 1, status = ''present''\<rparr>,
       \<lparr>rid = 2, date = ''2025-01-10'', student_id = 2, status = ''absent''\<rparr>]"
    by (simp add: marked_day_eq)
  have studs: "students marked_day =
      [\<lparr>sid = 1, roll_no = ''CS1'', name = ''Asha'', semester = 3, marks = Finite 0,
         total_attendance = 1, total_classes = 1\<rparr>,
       \<lparr>sid = 2, roll_no = ''CS2'', name = ''Bina'', semester = 4, marks = Finite 0,
         total_attendance = 0, total_classes = 1\<rparr>]"
    by (simp add: marked_day_eq)
  have r1: "filter (\<lambda>r. student_id r = 2) (attendance_records marked_day) =
      [\<lparr>rid = 2, date = ''2025-01-10'', student_id = 2, status = ''absent''\<rparr>]"
    unfolding recs by simp
  have r2: "filter (\<lambda>st. sid st = 2) (students marked_day) =
      [\<lparr>sid = 2, roll_no = ''CS2'', name = ''Bina'', semester = 4, marks = Finite 0,
         total_attendance = 0, total_classes = 1\<rparr>]"
    unfolding studs by simp
  have r3: "{r \<in> set (attendance_records marked_day). student_id r \<noteq> 1} =
      {\<lparr>rid = 2, date = ''2025-01-10'', student_id = 2, status = ''absent''\<rparr>}"
    unfolding recs by auto
  from delete_student_frame [of 1 marked_day 2] n
  have "filter (\<lambda>r. student_id r = 2) (attendance_records (snd (delete_student 1 marked_day))) =
          filter (\<lambda>r. student_id r = 2) (attendance_records marked_day)"
    and "filter (\<lambda>st. sid st = 2) (students (snd (delete_student 1 marked_day))) =
          filter (\<lambda>st. sid st = 2) (students marked_day)"
    and "set (attendance_records (snd (delete_student 1 marked_day))) =
          {r \<in> set (attendance_records marked_day). student_id r \<noteq> 1}"
    by blast+
  with n r1 r2 r3 show ?thesis by simp
qed

section \<open>Marks\<close>

subsection \<open>Rounding to binary64\<close>

lemma pow2_pos: "0 < pow2 k"
  by (simp add: pow2_def)

lemma pow2_powr: "pow2 k = 2 powr (real_of_int k)"
  by (simp add: pow2_def powr_int)

lemma pow2_mono: "j \<le> k \<Longrightarrow> pow2 j \<le> pow2 k"
  by (simp add: pow2_powr)

lemma round_half_even_int: "round_half_even (of_int n) = n"
  by (simp add: round_half_even_def)

lemma binary_exponent_normal:
  assumes "pow2 k \<le> \<bar>x\<bar>" "\<bar>x\<bar> < pow2 (k + 1)" "- 1022 \<le> k"
  shows "max \<lfloor>log 2 \<bar>x\<bar>\<rfloor> (- 1022) = k"
proof -
  have "0 < \<bar>x\<bar>" using assms(1) pow2_pos [of k] by linarith
  moreover have "2 powr (real_of_int k) \<le> \<bar>x\<bar> \<and> \<bar>x\<bar> < 2 powr (real_of_int (k + 1))"
    using assms(1,2) by (simp only: pow2_powr)
  ultimately have "\<lfloor>log 2 \<bar>x\<bar>\<rfloor> = k"
    by (subst floor_log_eq_powr_iff) simp_all
  with assms(3) show ?thesis by simp
qed

lemma binary_exponent_subnormal:
  assumes "x \<noteq> 0" "\<bar>x\<bar> < pow2 (- 1022)"
  shows "max \<lfloor>log 2 \<bar>x\<bar>\<rfloor> (- 1022) = - 1022"
proof -
  have pos: "0 < \<bar>x\<bar>" using assms(1) by simp
  have "\<bar>x\<bar> < 2 powr (real_of_int (- 1022))" using assms(2) by (simp only: pow2_powr)
  then have "log 2 \<bar>x\<bar> < real_of_int (- 1022)"
    using pos by (simp add: log_less_iff)
  then have "\<lfloor>log 2 \<bar>x\<bar>\<rfloor> \<le> - 1022" by linarith
  then show ?thesis by simp
qed

lemma binary64_normal:
  assumes "pow2 k \<le> \<bar>x\<bar>" "\<bar>x\<bar> < pow2 (k + 1)" "- 1022 \<le> k"
  shows "binary64 x =
     (let q = pow2 (k - 52); r = of_int (round_half_even (\<bar>x\<bar> / q)) * q
      in if pow2 1024 \<le> r then (if x < 0 then NegInf else PosInf)
         else Finite (if x < 0 then - r else r))"
proof -
  have "x \<noteq> 0" using assms(1) pow2_pos [of k] by auto
  then show ?thesis
    by (simp add: binary64_def binary_exponent_normal [OF assms])
qed

lemma binary64_subnormal:
  assumes "x \<noteq> 0" "\<bar>x\<bar> < pow2 (- 1022)"
  shows "binary64 x =
     (let q = pow2 (- 1074); r = of_int (round_half_even (\<bar>x\<bar> / q)) * q
      in if pow2 1024 \<le> r then (if x < 0 then NegInf else PosInf)
         else Finite (if x < 0 then - r else r))"
  using assms(1) by (simp add: binary64_def binary_exponent_subnormal [OF assms])

lemma binary64_150: "binary64 150 = Finite 150"
  by (subst binary64_normal [where k = 7]) (simp_all add: pow2_def round_half_even_def Let_def)

lemma binary64_m75: "binary64 (- 15 / 2) = Finite (- 15 / 2)"
  by (subst binary64_normal [where k = 2]) (simp_all add: pow2_def round_half_even_def Let_def)

lemma binary64_tenth: "binary64 (1 / 10) = Finite (3602879701896397 / 36028797018963968)"
  by (subst binary64_normal [where k = "- 4"]) (simp_all add: pow2_def round_half_even_def Let_def)

subsection \<open>The stored value\<close>

lemma clamp_finite: "py_max (Finite 0) (py_min (Finite 100) (Finite x)) = Finite (clamp_marks x)"
  by (simp add: py_max_def py_min_def clamp_marks_def)

lemma clamp_range: "\<exists>v. py_max (Finite 0) (py_min (Finite 100) w) = Finite v \<and> 0 \<le> v \<and> v \<le> 100"
  by (cases w) (auto simp: py_max_def py_min_def)

lemma marks_value_range: "\<exists>v. marks_value mark_str = Finite v \<and> 0 \<le> v \<and> v \<le> 100"
  using clamp_range by (cases "py_float mark_str") (auto simp: marks_value_def)

lemmas float_eval = py_float_def strip_float_def float_space_def split_sign_def parse_number_def
  parse_exponent_def is_digit_def digit_val_def digits_val_def scale10_def lower_char_def char_of_eq

lemma float_abc: "py_float ''abc'' = None"
  by (simp add: float_eval)

lemma float_150: "py_float ''150'' = Some (Finite 150)"
proof -
  have "py_float ''150'' = Some (binary64 150)" by (simp add: float_eval)
  then show ?thesis by (simp only: binary64_150)
qed

lemma float_m75: "py_float ''-7.5'' = Some (Finite (- 15 / 2))"
proof -
  have "py_float ''-7.5'' = Some (binary64 (- 15 / 2))" by (simp add: float_eval)
  then show ?thesis by (simp only: binary64_m75)
qed

lemma float_nan: "py_float ''nan'' = Some NaN"
  by (simp add: float_eval)

lemma float_inf: "py_float ''inf'' = Some PosInf"
  by (simp add: float_eval)

lemma float_minus_inf: "py_float ''-inf'' = Some NegInf"
  by (simp add: float_eval)

text \<open>
  Rounding at work: a tenth is no binary64 value, a literal below the smallest
  subnormal number is 0, one within half a step of 100 is 100, and one beyond the
  largest number is an infinity.
\<close>

lemma float_tenth: "py_float ''0.1'' = Some (Finite (3602879701896397 / 36028797018963968))"
proof -
  have "py_float ''0.1'' = Some (binary64 (1 / 10))" by (simp add: float_eval)
  then show ?thesis by (simp only: binary64_tenth)
qed

lemma float_tiny: "py_float ''1e-400'' = Some (Finite 0)"
proof -
  have "py_float ''1e-400'' = Some (binary64 (1 / 10 ^ 400))" by (simp add: float_eval)
  moreover have "binary64 (1 / 10 ^ 400) = Finite 0"
    by (subst binary64_subnormal) (simp_all add: pow2_def round_half_even_def Let_def)
  ultimately show ?thesis by (simp only:)
qed

lemma float_near_100: "py_float ''99.99999999999999999'' = Some (Finite 100)"
proof -
  have "py_float ''99.99999999999999999'' = Some (binary64 (9999999999999999999 / 10 ^ 17))"
    by (simp add: float_eval)
  moreover have "binary64 (9999999999999999999 / 10 ^ 17) = Finite 100"
    by (subst binary64_normal [where k = 6]) (simp_all add: pow2_def round_half_even_def Let_def)
  ultimately show ?thesis by (simp only:)
qed

lemma float_huge: "py_float ''1e400'' = Some PosInf"
proof -
  have "py_float ''1e400'' = Some (binary64 (10 ^ 400))" by (simp add: float_eval)
  moreover have "binary64 (10 ^ 400) = PosInf"
    by (subst binary64_normal [where k = 1328]) (simp_all add: pow2_def round_half_even_def Let_def)
  ultimately show ?thesis by (simp only:)
qed

lemma fold_set_marks:
  "students (fold (\<lambda>st. set_marks (sid st) (f (sid st))) xs s) =
     map (\<lambda>r. if sid r \<in> sid ` set xs then r\<lparr>marks := f (sid r)\<rparr> else r) (students s)"
proof (induction xs arbitrary: s)
  case Nil
  then show ?case by simp
next
  case (Cons x xs)
  have "students (fold (\<lambda>st. set_marks (sid st) (f (sid st))) (x # xs) s) =
        students (fold (\<lambda>st. set_marks (sid st) (f (sid st))) xs (set_marks (sid x) (f (sid x)) s))"
    by simp
  also have "\<dots> = map (\<lambda>r. if sid r \<in> sid ` set xs then r\<lparr>marks := f (sid r)\<rparr> else r)
                      (students (set_marks (sid x) (f (sid x)) s))"
    by (rule Cons.IH)
  also have "\<dots> = map (\<lambda>r. if sid r \<in> sid ` set (x # xs) then r\<lparr>marks := f (sid r)\<rparr> else r)
                      (students s)"
    by (auto simp: set_marks_def)
  finally show ?case .
qed

lemma fold_set_marks_rest:
  "attendance_records (fold (\<lambda>st. set_marks (sid st) (f (sid st))) xs s) = attendance_records s \<and>
   students_seq (fold (\<lambda>st. set_marks (sid st) (f (sid st))) xs s) = students_seq s \<and>
   attendance_seq (fold (\<lambda>st. set_marks (sid st) (f (sid st))) xs s) = attendance_seq s"
  by (induction xs arbitrary: s) (simp_all add: set_marks_def)

lemma marks_post_students:
  "students (snd (marks_post form s)) =
     map (\<lambda>r. r\<lparr>marks := marks_value (case form (sid r) of Some v \<Rightarrow> v | None \<Rightarrow> ''0'')\<rparr>) (students s)"
proof -
  have "students (snd (marks_post form s)) =
      map (\<lambda>r. if sid r \<in> sid ` set (students_by_roll s)
                then r\<lparr>marks := marks_value (case form (sid r) of Some v \<Rightarrow> v | None \<Rightarrow> ''0'')\<rparr>
                else r) (students s)"
    unfolding marks_post_def snd_conv
    by (rule fold_set_marks [where f = "\<lambda>i. marks_value (case form i of Some v \<Rightarrow> v | None \<Rightarrow> ''0'')"])
  also have "\<dots> = map (\<lambda>r. r\<lparr>marks := marks_value (case form (sid r) of Some v \<Rightarrow> v | None \<Rightarrow> ''0'')\<rparr>)
      (students s)"
    by (rule map_cong) (simp_all add: students_by_roll_def)
  finally show ?thesis .
qed


text \<open>
  Claim C8, as amended. For every marks field: when \<open>float\<close> raises \<open>ValueError\<close> the
  value stored is 0; when \<open>float\<close> gives a finite number (the binary64 value nearest to
  the literal) the value stored is that number clamped into [0, 100]; when it gives an
  infinity, which is no real number, the value stored is the clamped one as well, 100
  or 0, and not the 0 of unparsable text. Whatever the field holds, the value stored is
  a number between 0 and 100 and the request is answered with the success message,
  never a rejection; every student's marks become the value of that student's field.
  \<open>abc\<close> stores 0 and \<open>150\<close> stores 100.
\<close>

theorem marks_clamped:
  "(py_float mark_str = None \<longrightarrow> marks_value mark_str = Finite 0) \<and>
   (py_float mark_str = Some (Finite x) \<longrightarrow> marks_value mark_str = Finite (clamp_marks x)) \<and>
   (py_float mark_str = Some PosInf \<longrightarrow> marks_value mark_str = Finite 100) \<and>
   (py_float mark_str = Some NegInf \<longrightarrow> marks_value mark_str = Finite 0) \<and>
   (\<exists>v. marks_value mark_str = Finite v \<and> 0 \<le> v \<and> v \<le> 100) \<and>
   fst (marks_post form s) = Flash ''Marks updated.'' ''success'' \<and>
   students (snd (marks_post form s)) =
     map (\<lambda>r. r\<lparr>marks := marks_value (case form (sid r) of Some v \<Rightarrow> v | None \<Rightarrow> ''0'')\<rparr>)
       (students s) \<and>
   marks_value ''abc'' = Finite 0 \<and> marks_value ''150'' = Finite 100"
proof -
  have a: "py_float mark_str = None \<longrightarrow> marks_value mark_str = Finite 0"
    by (simp add: marks_value_def)
  have b: "py_float mark_str = Some (Finite x) \<longrightarrow> marks_value mark_str = Finite (clamp_marks x)"
    by (simp add: marks_value_def clamp_finite)
  have p: "py_float mark_str = Some PosInf \<longrightarrow> marks_value mark_str = Finite 100"
    by (simp add: marks_value_def py_max_def py_min_def)
  have n: "py_float mark_str = Some NegInf \<longrightarrow> marks_value mark_str = Finite 0"
    by (simp add: marks_value_def py_max_def py_min_def)
  have c: "fst (marks_post form s) = Flash ''Marks updated.'' ''success''"
    by (simp add: marks_post_def)
  have d: "marks_value ''abc'' = Finite 0"
    by (simp add: marks_value_def float_abc)
  have e: "marks_value ''150'' = Finite 100"
    by (simp add: marks_value_def float_150 py_max_def py_min_def)
  show ?thesis
    by (rule conjI a b p n c d e marks_value_range marks_post_students)+
qed

theorem marks_clamped_witness:
  "py_float ''abc'' = None \<and> marks_value ''abc'' = Finite 0 \<and>
   py_float ''-7.5'' = Some (Finite (- 15 / 2)) \<and> marks_value ''-7.5'' = Finite 0 \<and>
   py_float ''inf'' = Some PosInf \<and> marks_value ''inf'' = Finite 100 \<and>
   py_float ''-inf'' = Some NegInf \<and> marks_value ''-inf'' = Finite 0"
proof -
  have c: "clamp_marks (- 15 / 2) = 0"
    by (simp add: clamp_marks_def)
  from marks_clamped [of "''abc''" 0 Map.empty init_db] float_abc
  have a: "marks_value ''abc'' = Finite 0" by blast
  from marks_clamped [of "''-7.5''" "- 15 / 2" Map.empty init_db] float_m75
  have "marks_value ''-7.5'' = Finite (clamp_marks (- 15 / 2))" by blast
  with c have b: "marks_value ''-7.5'' = Finite 0" by simp
  from marks_clamped [of "''inf''" 0 Map.empty init_db] float_inf
  have p: "marks_value ''inf'' = Finite 100" by blast
  from marks_clamped [of "''-inf''" 0 Map.empty init_db] float_minus_inf
  have n: "marks_value ''-inf'' = Finite 0" by blast
  from float_abc a float_m75 b float_inf p float_minus_inf n show ?thesis by (intro conjI)
qed

text \<open>
  Claim C8 as it was stated fails at the text \<open>nan\<close>: \<open>float\<close> accepts it, the value is
  no real number, so the claim has 0 stored; NaN compares false with everything, so
  \<open>min(100, nan)\<close> keeps its first argument, and 100 is stored.
\<close>

theorem marks_nan_counterexample:
  "py_float ''nan'' = Some NaN \<and> claimed_marks ''nan'' = Finite 0 \<and>
   marks_value ''nan'' = Finite 100 \<and> marks_value ''nan'' \<noteq> claimed_marks ''nan''"
proof -
  have c: "claimed_marks ''nan'' = Finite 0"
    by (simp add: claimed_marks_def float_nan)
  have m: "marks_value ''nan'' = Finite 100"
    by (simp add: marks_value_def float_nan py_max_def py_min_def)
  from c m have "marks_value ''nan'' \<noteq> claimed_marks ''nan''" by simp
  with float_nan c m show ?thesis by (intro conjI)
qed

section \<open>A day's marking in one step\<close>

lemma bump_bump: "bump a c (bump a' c' r) = bump (a + a') (c + c') r"
  by (simp add: bump_def)

lemma bump_zero: "bump 0 0 r = r"
  by (simp add: bump_def)

lemma sid_bump: "sid (bump a c r) = sid r"
  by (simp add: bump_def)

lemma exec_revert_one:
  "fold exec (revert_one x) s =
     s\<lparr>students := map (\<lambda>r. if sid r = student_id x
                              then bump (if status x = ''present'' then - 1 else 0) (- 1) r else r)
                       (students s)\<rparr>"
  by (auto simp: revert_one_def bump_def intro!: map_cong)

lemma fold_revert_students:
  "students (fold exec (concat (map revert_one ex)) s) =
     map (\<lambda>r. bump (- int (length (filter (\<lambda>x. student_id x = sid r \<and> status x = ''present'') ex)))
                  (- int (length (filter (\<lambda>x. student_id x = sid r) ex))) r)
         (students s)"
proof (induction ex arbitrary: s)
  case Nil
  then show ?case by (simp add: bump_zero)
next
  case (Cons x ex)
  have "students (fold exec (concat (map revert_one (x # ex))) s) =
        students (fold exec (concat (map revert_one ex)) (fold exec (revert_one x) s))"
    by simp
  also have "\<dots> =
         map (\<lambda>r. bump (- int (length (filter (\<lambda>x. student_id x = sid r \<and> status x = ''present'') ex)))
                      (- int (length (filter (\<lambda>x. student_id x = sid r) ex))) r)
             (students (fold exec (revert_one x) s))"
    by (rule Cons.IH)
  also have "\<dots> =
         map (\<lambda>r. bump (- int (length (filter (\<lambda>x. student_id x = sid r \<and> status x = ''present'') (x # ex))))
                      (- int (length (filter (\<lambda>x. student_id x = sid r) (x # ex)))) r)
             (students s)"
    by (auto simp: exec_revert_one bump_bump sid_bump algebra_simps)
  finally show ?case .
qed

lemma fold_revert_rest:
  "attendance_records (fold exec (concat (map revert_one ex)) s) = attendance_records s \<and>
   attendance_seq (fold exec (concat (map revert_one ex)) s) = attendance_seq s \<and>
   students_seq (fold exec (concat (map revert_one ex)) s) = students_seq s"
  by (induction ex arbitrary: s) (simp_all add: exec_revert_one)

lemma exec_mark_one:
  "fold exec (mark_one d form st) s =
     s\<lparr>students := map (\<lambda>r. if sid r = sid st
                              then bump (if form_status form (sid st) = ''present'' then 1 else 0) 1 r
                              else r)
                       (students s),
       attendance_records := attendance_records s @
          [\<lparr>rid = attendance_seq s + 1, date = d, student_id = sid st,
            status = form_status form (sid st)\<rparr>],
       attendance_seq := attendance_seq s + 1\<rparr>"
  by (auto simp: mark_one_def bump_def intro!: map_cong)

lemma fold_mark_students:
  "students (fold exec (mark_stmts d form sl) s) =
     map (\<lambda>r. bump (int (now_present form sl (sid r))) (int (now_counted sl (sid r))) r) (students s)"
proof (induction sl arbitrary: s)
  case Nil
  then show ?case by (simp add: mark_stmts_def now_present_def now_counted_def bump_zero)
next
  case (Cons x sl)
  have "students (fold exec (mark_stmts d form (x # sl)) s) =
        students (fold exec (mark_stmts d form sl) (fold exec (mark_one d form x) s))"
    by (simp add: mark_stmts_def)
  also have "\<dots> =
         map (\<lambda>r. bump (int (now_present form sl (sid r))) (int (now_counted sl (sid r))) r)
             (students (fold exec (mark_one d form x) s))"
    by (rule Cons.IH)
  also have "\<dots> =
         map (\<lambda>r. bump (int (now_present form (x # sl) (sid r))) (int (now_counted (x # sl) (sid r))) r)
             (students s)"
    by (auto simp: exec_mark_one bump_bump sid_bump now_present_def now_counted_def algebra_simps)
  finally show ?case .
qed

lemma fold_mark_rest:
  "attendance_records (fold exec (mark_stmts d form sl) s) =
     attendance_records s @ new_records d form (attendance_seq s) sl \<and>
   attendance_seq (fold exec (mark_stmts d form sl) s) = attendance_seq s + length sl \<and>
   students_seq (fold exec (mark_stmts d form sl) s) = students_seq s"
proof (induction sl arbitrary: s)
  case Nil
  then show ?case by (simp add: mark_stmts_def)
next
  case (Cons x sl)
  have "fold exec (mark_stmts d form (x # sl)) s =
        fold exec (mark_stmts d form sl) (fold exec (mark_one d form x) s)"
    by (simp add: mark_stmts_def)
  then show ?case
    by (simp add: Cons.IH exec_mark_one)
qed

lemma no_existing_filter:
  "existing_records d s = [] \<Longrightarrow> filter (\<lambda>r. date r \<noteq> d) (attendance_records s) = attendance_records s"
  by (auto simp: existing_records_def filter_empty_conv filter_id_conv)

lemma fold_revert_stmts:
  "students (fold exec (revert_stmts d (existing_records d s)) s) =
     map (\<lambda>r. bump (- int (was_present d s (sid r))) (- int (was_counted d s (sid r))) r) (students s) \<and>
   attendance_records (fold exec (revert_stmts d (existing_records d s)) s) =
     filter (\<lambda>r. date r \<noteq> d) (attendance_records s) \<and>
   attendance_seq (fold exec (revert_stmts d (existing_records d s)) s) = attendance_seq s \<and>
   students_seq (fold exec (revert_stmts d (existing_records d s)) s) = students_seq s"
proof (cases "existing_records d s = []")
  case True
  then show ?thesis
    by (simp add: revert_stmts_def was_present_def was_counted_def bump_zero no_existing_filter)
next
  case False
  then show ?thesis
    by (simp add: revert_stmts_def fold_revert_students fold_revert_rest was_present_def
        was_counted_def)
qed

lemma length_students_by_roll: "length (students_by_roll s) = length (students s)"
  by (simp add: students_by_roll_def)

lemma run_attendance: "fold exec (attendance_stmts d form s) s = apply_day d form s"
proof (rule db.equality)
  let ?r = "fold exec (revert_stmts d (existing_records d s)) s"
  have run: "fold exec (attendance_stmts d form s) s = fold exec (mark_stmts d form (students_by_roll s)) ?r"
    by (simp add: attendance_stmts_def)
  show "students (fold exec (attendance_stmts d form s) s) = students (apply_day d form s)"
    unfolding run fold_mark_students
    by (simp add: fold_revert_stmts apply_day_def bump_bump sid_bump)
  show "attendance_records (fold exec (attendance_stmts d form s) s) =
        attendance_records (apply_day d form s)"
    unfolding run by (simp add: fold_mark_rest fold_revert_stmts apply_day_def)
  show "attendance_seq (fold exec (attendance_stmts d form s) s) = attendance_seq (apply_day d form s)"
    unfolding run
    by (simp add: fold_mark_rest fold_revert_stmts apply_day_def length_students_by_roll)
  show "students_seq (fold exec (attendance_stmts d form s) s) = students_seq (apply_day d form s)"
    unfolding run by (simp add: fold_mark_rest fold_revert_stmts apply_day_def)
  show "db.more (fold exec (attendance_stmts d form s) s) = db.more (apply_day d form s)"
    by simp
qed

section \<open>The invariant of the reachable states\<close>

lemma consistent_init: "consistent init_db"
  by (simp add: consistent_def init_db_def)

lemma consistent_insert:
  assumes "consistent s" "insert_student roll nm sem s = Some s'"
  shows "consistent s'"
proof -
  let ?row = "\<lparr>sid = students_seq s + 1, roll_no = roll, name = nm, semester = sem,
                 marks = Finite 0, total_attendance = 0, total_classes = 0\<rparr>"
  from assms(2) have s': "s' = s\<lparr>students := students s @ [?row], students_seq := students_seq s + 1\<rparr>"
    by (simp add: insert_student_def split: if_splits)
  from assms(1) have fresh: "students_seq s + 1 \<notin> sid ` set (students s)"
    by (auto simp: consistent_def)
  from assms(1) have refs: "\<forall>r \<in> set (attendance_records s). student_id r \<in> sid ` set (students s)"
    by (simp add: consistent_def)
  have "\<forall>r \<in> set (attendance_records s). student_id r \<noteq> students_seq s + 1"
    using refs fresh by metis
  then have none: "filter (\<lambda>r. student_id r = students_seq s + 1) (attendance_records s) = []"
    "filter (\<lambda>r. student_id r = students_seq s + 1 \<and> status r = ''present'') (attendance_records s) = []"
    by (auto simp: filter_empty_conv)
  show ?thesis
    using assms(1) fresh none unfolding s' consistent_def present_count_def record_count_def
    by (auto simp: image_iff)
qed

lemma consistent_students_post: "consistent s \<Longrightarrow> consistent (snd (students_post roll nm sem s))"
  by (auto simp: students_post_def Let_def consistent_insert split: prod.splits option.splits)

lemma filter_other_key2:
  "j \<noteq> i \<Longrightarrow>
   filter (\<lambda>r. f r = j \<and> P r) (filter (\<lambda>r. f r \<noteq> i) xs) = filter (\<lambda>r. f r = j \<and> P r) xs"
  by (induction xs) auto

lemma consistent_delete: 
  assumes "consistent s" shows "consistent (snd (delete_student i s))"
proof -
  have a: "\<And>j. j \<noteq> i \<Longrightarrow> present_count (snd (delete_student i s)) j = present_count s j"
    by (simp add: present_count_def delete_student_def filter_other_key2 del: filter_filter)
  have b: "\<And>j. j \<noteq> i \<Longrightarrow> record_count (snd (delete_student i s)) j = record_count s j"
    by (simp add: record_count_def delete_student_def filter_other_key del: filter_filter)
  have c: "distinct (map (\<lambda>r. (date r, student_id r)) (filter (\<lambda>r. student_id r \<noteq> i) (attendance_records s)))"
    using assms by (simp add: consistent_def distinct_map_filter)
  have d: "distinct (map sid (filter (\<lambda>r. sid r \<noteq> i) (students s)))"
    using assms by (simp add: consistent_def distinct_map_filter)
  show ?thesis
    unfolding consistent_def
  proof (intro conjI)
    show "distinct (map sid (students (snd (delete_student i s))))"
      using d by (simp add: delete_student_def)
    show "\<forall>st\<in>set (students (snd (delete_student i s))). sid st \<le> students_seq (snd (delete_student i s))"
      using assms by (auto simp: consistent_def delete_student_def)
    show "\<forall>r\<in>set (attendance_records (snd (delete_student i s))).
       student_id r \<in> sid ` set (students (snd (delete_student i s)))"
      using assms by (auto simp: consistent_def delete_student_def)
    show "\<forall>st\<in>set (students (snd (delete_student i s))).
       total_attendance st = int (present_count (snd (delete_student i s)) (sid st)) \<and>
       total_classes st = int (record_count (snd (delete_student i s)) (sid st))"
    proof
      fix st assume "st \<in> set (students (snd (delete_student i s)))"
      then have st: "st \<in> set (students s)" "sid st \<noteq> i" by (auto simp: delete_student_def)
      with a b assms show "total_attendance st = int (present_count (snd (delete_student i s)) (sid st)) \<and>
       total_classes st = int (record_count (snd (delete_student i s)) (sid st))"
        by (simp add: consistent_def)
    qed
    show "distinct (map (\<lambda>r. (date r, student_id r)) (attendance_records (snd (delete_student i s))))"
      using c by (simp add: delete_student_def)
  qed
qed

lemma consistent_marks: 
  assumes "consistent s" shows "consistent (snd (marks_post form s))"
proof -
  have r: "attendance_records (snd (marks_post form s)) = attendance_records s"
     "students_seq (snd (marks_post form s)) = students_seq s"
    by (simp_all add: marks_post_def
        fold_set_marks_rest [where f = "\<lambda>i. marks_value (case form i of Some v \<Rightarrow> v | None \<Rightarrow> ''0'')"])
  have p: "\<And>j. present_count (snd (marks_post form s)) j = present_count s j"
     "\<And>j. record_count (snd (marks_post form s)) j = record_count s j"
    by (simp_all add: present_count_def record_count_def r)
  have ids: "map sid (students (snd (marks_post form s))) = map sid (students s)"
    by (simp add: marks_post_students o_def)
  have idset: "sid ` set (students (snd (marks_post form s))) = sid ` set (students s)"
    using ids by (metis set_map)
  show ?thesis
    unfolding consistent_def p r ids idset
  proof (intro conjI)
    show "\<forall>st\<in>set (students (snd (marks_post form s))). sid st \<le> students_seq s"
      using assms by (auto simp: marks_post_students consistent_def)
    show "\<forall>st\<in>set (students (snd (marks_post form s))).
       total_attendance st = int (present_count s (sid st)) \<and>
       total_classes st = int (record_count s (sid st))"
      using assms by (auto simp: marks_post_students consistent_def)
  qed (use assms in \<open>simp_all add: consistent_def\<close>)
qed

lemma consistent_add_sample:
  "consistent (snd acc) \<Longrightarrow> consistent (snd (add_sample smp acc))"
  by (cases smp; cases acc) (auto simp: add_sample_def consistent_insert split: option.splits)

lemma consistent_fold_sample:
  "consistent (snd acc) \<Longrightarrow> consistent (snd (fold add_sample sample acc))"
  by (induction sample arbitrary: acc) (simp_all add: consistent_add_sample)

lemma consistent_generate: "consistent s \<Longrightarrow> consistent (snd (ai_generate_sample sample s))"
  using consistent_fold_sample [of "(0, s)" sample]
  by (cases "fold add_sample sample (0, s)") (auto simp: ai_generate_sample_def)

lemma set_students_by_roll: "set (students_by_roll s) = set (students s)"
  by (simp add: students_by_roll_def)

lemma distinct_ids_by_roll:
  "distinct (map sid (students_by_roll s)) = distinct (map sid (students s))"
  by (simp add: students_by_roll_def distinct_map)

lemma new_records_keys:
  "map (\<lambda>r. (date r, student_id r)) (new_records d form n sl) = map (\<lambda>st. (d, sid st)) sl"
  by (induction sl arbitrary: n) simp_all

lemma new_records_view:
  "map (\<lambda>r. (date r, student_id r, status r)) (new_records d form n sl) =
   map (\<lambda>st. (d, sid st, form_status form (sid st))) sl"
  by (induction sl arbitrary: n) simp_all

lemma new_records_counted:
  "length (filter (\<lambda>r. student_id r = i) (new_records d form n sl)) = now_counted sl i"
  by (induction sl arbitrary: n) (simp_all add: now_counted_def)

lemma new_records_present:
  "length (filter (\<lambda>r. student_id r = i \<and> status r = ''present'') (new_records d form n sl)) =
   now_present form sl i"
  by (induction sl arbitrary: n) (auto simp: now_present_def)

lemma new_records_date: "r \<in> set (new_records d form n sl) \<Longrightarrow> date r = d"
  by (induction sl arbitrary: n) auto

lemma new_records_ids: "student_id ` set (new_records d form n sl) = sid ` set sl"
  by (induction sl arbitrary: n) auto

lemma length_filter_split:
  "length (filter P xs) = length (filter P (filter Q xs)) + length (filter P (filter (\<lambda>x. \<not> Q x) xs))"
  by (induction xs) auto

lemma record_count_split:
  "record_count s i =
     length (filter (\<lambda>r. student_id r = i) (filter (\<lambda>r. date r \<noteq> d) (attendance_records s))) +
     was_counted d s i"
  unfolding record_count_def was_counted_def existing_records_def
  by (subst length_filter_split [where Q = "\<lambda>r. date r \<noteq> d"]) simp

lemma present_count_split:
  "present_count s i =
     length (filter (\<lambda>r. student_id r = i \<and> status r = ''present'')
               (filter (\<lambda>r. date r \<noteq> d) (attendance_records s))) +
     was_present d s i"
  unfolding present_count_def was_present_def existing_records_def
  by (subst length_filter_split [where Q = "\<lambda>r. date r \<noteq> d"]) simp

lemma record_count_apply_day:
  "int (record_count (apply_day d form s) i) =
     int (record_count s i) + int (now_counted (students_by_roll s) i) - int (was_counted d s i)"
  by (simp add: record_count_split [of s i d] new_records_counted)
     (simp add: record_count_def apply_day_def new_records_counted)

lemma present_count_apply_day:
  "int (present_count (apply_day d form s) i) =
     int (present_count s i) + int (now_present form (students_by_roll s) i) - int (was_present d s i)"
  by (simp add: present_count_split [of s i d])
     (simp add: present_count_def apply_day_def new_records_present)

lemma counters_apply_day:
  assumes "\<forall>st \<in> set (students s).
          total_attendance st = int (present_count s (sid st)) \<and>
          total_classes st = int (record_count s (sid st))"
  shows "\<forall>st \<in> set (students (apply_day d form s)).
          total_attendance st = int (present_count (apply_day d form s) (sid st)) \<and>
          total_classes st = int (record_count (apply_day d form s) (sid st))"
proof
  fix st assume "st \<in> set (students (apply_day d form s))"
  then obtain r where r: "r \<in> set (students s)"
    and st: "st = bump (int (now_present form (students_by_roll s) (sid r)) - int (was_present d s (sid r)))
                      (int (now_counted (students_by_roll s) (sid r)) - int (was_counted d s (sid r))) r"
    by (auto simp: apply_day_def)
  from assms r have c: "total_attendance r = int (present_count s (sid r))"
    "total_classes r = int (record_count s (sid r))" by auto
  show "total_attendance st = int (present_count (apply_day d form s) (sid st)) \<and>
          total_classes st = int (record_count (apply_day d form s) (sid st))"
    unfolding record_count_apply_day present_count_apply_day
    using c by (simp add: st bump_def)
qed

lemma consistent_apply_day:
  assumes "consistent s" shows "consistent (apply_day d form s)"
  unfolding consistent_def
proof (intro conjI)
  have ids: "map sid (students (apply_day d form s)) = map sid (students s)"
    by (simp add: apply_day_def o_def sid_bump)
  then have idset: "sid ` set (students (apply_day d form s)) = sid ` set (students s)"
    by (metis set_map)
  show "distinct (map sid (students (apply_day d form s)))"
    using assms by (simp add: ids consistent_def)
  show "\<forall>st\<in>set (students (apply_day d form s)). sid st \<le> students_seq (apply_day d form s)"
    using assms by (auto simp: apply_day_def consistent_def sid_bump)
  show "\<forall>r\<in>set (attendance_records (apply_day d form s)).
       student_id r \<in> sid ` set (students (apply_day d form s))"
    unfolding idset
  proof
    fix r assume "r \<in> set (attendance_records (apply_day d form s))"
    then consider "r \<in> set (attendance_records s)"
      | "r \<in> set (new_records d form (attendance_seq s) (students_by_roll s))"
      by (auto simp: apply_day_def)
    then show "student_id r \<in> sid ` set (students s)"
    proof cases
      case 1
      with assms show ?thesis by (simp add: consistent_def)
    next
      case 2
      then have "student_id r \<in> student_id ` set (new_records d form (attendance_seq s) (students_by_roll s))"
        by (rule imageI)
      then show ?thesis by (simp add: new_records_ids set_students_by_roll)
    qed
  qed
  show "\<forall>st\<in>set (students (apply_day d form s)).
       total_attendance st = int (present_count (apply_day d form s) (sid st)) \<and>
       total_classes st = int (record_count (apply_day d form s) (sid st))"
    using assms by (intro counters_apply_day) (simp add: consistent_def)
  show "distinct (map (\<lambda>r. (date r, student_id r)) (attendance_records (apply_day d form s)))"
  proof -
    have old: "distinct (map (\<lambda>r. (date r, student_id r)) (filter (\<lambda>r. date r \<noteq> d) (attendance_records s)))"
      using assms by (simp add: consistent_def distinct_map_filter)
    have "distinct (map sid (students_by_roll s))"
      using assms by (simp add: distinct_ids_by_roll consistent_def)
    then have new: "distinct (map (\<lambda>st. (d, sid st)) (students_by_roll s))"
      by (simp add: distinct_map inj_on_def)
    have disj: "set (map (\<lambda>r. (date r, student_id r)) (filter (\<lambda>r. date r \<noteq> d) (attendance_records s))) \<inter>
        set (map (\<lambda>st. (d, sid st)) (students_by_roll s)) = {}"
      by auto
    show ?thesis
      using old new disj by (simp add: apply_day_def new_records_keys)
  qed
qed

lemma consistent_attendance: "consistent s \<Longrightarrow> consistent (snd (attendance_post t df form s))"
  by (simp add: attendance_post_def Let_def run_attendance consistent_apply_day)

lemma consistent_handle: "consistent s \<Longrightarrow> consistent (handle rq s)"
  by (cases rq)
     (simp_all add: consistent_students_post consistent_delete consistent_attendance
        consistent_marks consistent_generate)

lemma reachable_consistent: "reachable s \<Longrightarrow> consistent s"
  by (induction rule: reachable.induct) (simp_all add: consistent_init consistent_handle)

lemma reachable_two_students: "reachable two_students"
  unfolding two_students_def by (intro reachable.intros)

lemma reachable_marked_day: "reachable marked_day"
  unfolding marked_day_def by (intro reachable.step reachable_two_students)

lemma present_le_record: "present_count s i \<le> record_count s i"
proof -
  have "filter (\<lambda>r. student_id r = i \<and> status r = ''present'') (attendance_records s) =
        filter (\<lambda>r. status r = ''present'') (filter (\<lambda>r. student_id r = i) (attendance_records s))"
    by (simp add: conj_commute)
  then show ?thesis
    unfolding present_count_def record_count_def by (metis length_filter_le)
qed

lemma distinct_key_count:
  "distinct (map f xs) \<Longrightarrow> length (filter (\<lambda>x. f x = k) xs) \<le> 1"
proof (induction xs)
  case Nil
  then show ?case by simp
next
  case (Cons x xs)
  show ?case
  proof (cases "f x = k")
    case True
    from Cons.prems have "f x \<notin> f ` set xs" by simp
    with True have "\<forall>y \<in> set xs. f y \<noteq> k" by (metis imageI)
    then have "filter (\<lambda>x. f x = k) xs = []" by (simp add: filter_empty_conv)
    with True show ?thesis by simp
  next
    case False
    with Cons show ?thesis by simp
  qed
qed

text \<open>
  Claim C1. In every state reachable from the empty database by the requests (adding
  students one by one or as a generated sample, deleting students, marking attendance
  for any date and statuses, entering marks), every student's \<open>total_attendance\<close> is
  the number of that student's records with status \<open>present\<close>, \<open>total_classes\<close> is the
  number of all of that student's records, and \<open>0 \<le> total_attendance \<le> total_classes\<close>.
\<close>

theorem counters_match_records:
  assumes "reachable s" and "st \<in> set (students s)"
  shows "total_attendance st = int (present_count s (sid st)) \<and>
         total_classes st = int (record_count s (sid st)) \<and>
         0 \<le> total_attendance st \<and> total_attendance st \<le> total_classes st"
proof -
  from assms(1) have "consistent s" by (rule reachable_consistent)
  with assms(2) have c: "total_attendance st = int (present_count s (sid st))"
    "total_classes st = int (record_count s (sid st))"
    by (auto simp: consistent_def)
  moreover have "present_count s (sid st) \<le> record_count s (sid st)" by (rule present_le_record)
  ultimately show ?thesis by simp
qed

theorem counters_match_records_witness:
  "reachable marked_day \<and>
   \<lparr>sid = 1, roll_no = ''CS1'', name = ''Asha'', semester = 3, marks = Finite 0,
     total_attendance = 1, total_classes = 1\<rparr> \<in> set (students marked_day) \<and>
   present_count marked_day 1 = 1 \<and> record_count marked_day 1 = 1"
proof -
  let ?row = "\<lparr>sid = 1, roll_no = ''CS1'', name = ''Asha'', semester = 3, marks = Finite 0,
     total_attendance = 1, total_classes = 1\<rparr>"
  have m: "?row \<in> set (students marked_day)" by (simp add: marked_day_eq)
  from counters_match_records [OF reachable_marked_day m]
  have "int (present_count marked_day 1) = 1 \<and> int (record_count marked_day 1) = 1" by simp
  with reachable_marked_day m show ?thesis by simp
qed

text \<open>
  Claim C5. In every reachable state no two attendance records have the same date and
  student: for every date and student there is at most one record.
\<close>

theorem one_record_per_day_and_student:
  assumes "reachable s"
  shows "distinct (map (\<lambda>r. (date r, student_id r)) (attendance_records s)) \<and>
         length (filter (\<lambda>r. date r = d \<and> student_id r = i) (attendance_records s)) \<le> 1"
proof -
  from assms have "consistent s" by (rule reachable_consistent)
  then have k: "distinct (map (\<lambda>r. (date r, student_id r)) (attendance_records s))"
    by (simp add: consistent_def)
  from distinct_key_count [OF k, of "(d, i)"] k show ?thesis by simp
qed

theorem one_record_per_day_and_student_witness:
  "reachable marked_day \<and>
   length (filter (\<lambda>r. date r = ''2025-01-10'' \<and> student_id r = 1) (attendance_records marked_day)) = 1 \<and>
   length (attendance_records marked_day) = 2"
proof -
  have a: "length (attendance_records marked_day) = 2" by (simp add: marked_day_eq)
  have b: "1 \<le> length (filter (\<lambda>r. date r = ''2025-01-10'' \<and> student_id r = 1) (attendance_records marked_day))"
    by (simp add: marked_day_eq)
  from one_record_per_day_and_student [OF reachable_marked_day, of "''2025-01-10''" 1] b
  have "length (filter (\<lambda>r. date r = ''2025-01-10'' \<and> student_id r = 1) (attendance_records marked_day)) = 1"
    by simp
  with reachable_marked_day a show ?thesis by simp
qed

section \<open>Marking the same day again\<close>

lemma insort_key_map:
  "(\<And>x. f (g x) = f x) \<Longrightarrow> insort_key f (g x) (map g ys) = map g (insort_key f x ys)"
  by (induction ys) simp_all

lemma sort_key_map:
  "(\<And>x. f (g x) = f x) \<Longrightarrow> sort_key f (map g xs) = map g (sort_key f xs)"
  by (induction xs) (simp_all add: sort_key_simps insort_key_map)

lemma now_counted_ids: "now_counted sl i = length (filter (\<lambda>j. j = i) (map sid sl))"
  by (simp add: now_counted_def filter_map o_def)

lemma now_present_ids:
  "now_present form sl i =
     length (filter (\<lambda>j. j = i \<and> form_status form j = ''present'') (map sid sl))"
  by (simp add: now_present_def filter_map o_def)

lemma new_records_view_ids:
  "map (\<lambda>r. (date r, student_id r, status r)) (new_records d form n sl) =
   map (\<lambda>j. (d, j, form_status form j)) (map sid sl)"
  by (simp add: new_records_view o_def)

lemma roll_no_bump: "roll_no (bump a c r) = roll_no r"
  by (simp add: bump_def)

lemma ids_by_roll_apply_day:
  "map sid (students_by_roll (apply_day d form s)) = map sid (students_by_roll s)"
proof -
  let ?g = "\<lambda>r. bump (int (now_present form (students_by_roll s) (sid r)) - int (was_present d s (sid r)))
                      (int (now_counted (students_by_roll s) (sid r)) - int (was_counted d s (sid r))) r"
  have "students_by_roll (apply_day d form s) = sort_key roll_no (map ?g (students s))"
    by (simp add: students_by_roll_def apply_day_def)
  also have "\<dots> = map ?g (sort_key roll_no (students s))"
    by (rule sort_key_map) (simp add: roll_no_bump)
  finally show ?thesis
    by (simp add: students_by_roll_def o_def sid_bump)
qed

lemma existing_apply_day:
  "existing_records d (apply_day d form s) =
     new_records d form (attendance_seq s) (students_by_roll s)"
proof -
  have "filter (\<lambda>r. date r = d) (new_records d form (attendance_seq s) (students_by_roll s)) =
        new_records d form (attendance_seq s) (students_by_roll s)"
    by (simp add: filter_id_conv new_records_date)
  then show ?thesis
    by (simp add: existing_records_def apply_day_def)
qed

lemma was_apply_day:
  "was_counted d (apply_day d form s) i = now_counted (students_by_roll s) i"
  "was_present d (apply_day d form s) i = now_present form (students_by_roll s) i"
  by (simp_all add: was_counted_def was_present_def existing_apply_day new_records_counted
      new_records_present)

lemma now_apply_day:
  "now_counted (students_by_roll (apply_day d form s)) i = now_counted (students_by_roll s) i"
  "now_present form' (students_by_roll (apply_day d form s)) i = now_present form' (students_by_roll s) i"
  by (simp_all add: now_counted_ids now_present_ids ids_by_roll_apply_day)

lemma students_apply_twice:
  "students (apply_day d f2 (apply_day d f1 s)) = students (apply_day d f2 s)"
proof -
  have "students (apply_day d f2 (apply_day d f1 s)) =
      map (\<lambda>r. bump (int (now_present f2 (students_by_roll s) (sid r)) -
                     int (now_present f1 (students_by_roll s) (sid r)))
                    (int (now_counted (students_by_roll s) (sid r)) -
                     int (now_counted (students_by_roll s) (sid r))) r)
          (students (apply_day d f1 s))"
    by (simp add: apply_day_def [of d f2] was_apply_day now_apply_day)
  also have "\<dots> = students (apply_day d f2 s)"
    by (simp add: apply_day_def bump_bump sid_bump)
  finally show ?thesis .
qed

lemma record_view_apply_day:
  "record_view (apply_day d form s) =
     map (\<lambda>r. (date r, student_id r, status r)) (filter (\<lambda>r. date r \<noteq> d) (attendance_records s)) @
     map (\<lambda>j. (d, j, form_status form j)) (map sid (students_by_roll s))"
  by (simp add: record_view_def apply_day_def new_records_view_ids)

lemma filter_apply_day:
  "filter (\<lambda>r. date r \<noteq> d) (attendance_records (apply_day d form s)) =
   filter (\<lambda>r. date r \<noteq> d) (attendance_records s)"
proof -
  have "filter (\<lambda>r. date r \<noteq> d) (new_records d form (attendance_seq s) (students_by_roll s)) = []"
    by (simp add: filter_empty_conv new_records_date)
  then show ?thesis by (simp add: apply_day_def)
qed

lemma records_apply_twice:
  "record_view (apply_day d f2 (apply_day d f1 s)) = record_view (apply_day d f2 s)"
  by (simp add: record_view_apply_day filter_apply_day ids_by_roll_apply_day)

lemma attendance_post_cases:
  "attendance_post t df form s =
     (let ds = (case df of Some d \<Rightarrow> d | None \<Rightarrow> t)
      in if t < ds then (future_flash, s)
         else if is_sunday ds then (sunday_flash, s)
         else (saved_flash ds, apply_day ds form s))"
  by (simp add: attendance_post_def Let_def run_attendance)

lemma reapply_general:
  "students (snd (attendance_post t df f2 (snd (attendance_post t df f1 s)))) =
     students (snd (attendance_post t df f2 s)) \<and>
   record_view (snd (attendance_post t df f2 (snd (attendance_post t df f1 s)))) =
     record_view (snd (attendance_post t df f2 s))"
  by (simp add: attendance_post_cases Let_def students_apply_twice records_apply_twice)

text \<open>
  Claim C2. Marking a day with statuses \<open>f1\<close> and then again with \<open>f2\<close> leaves the
  student rows (so every pair of counters) and the records (date, student, status; the
  record ids aside) as marking it once with \<open>f2\<close> does; with the same statuses the
  second marking changes neither. A student at (3, 4) marked present on a new date is at
  (4, 5), and marked absent for the same date afterwards at (3, 5).
\<close>

theorem reapply_replaces:
  "students (snd (attendance_post t df f2 (snd (attendance_post t df f1 s)))) =
     students (snd (attendance_post t df f2 s)) \<and>
   record_view (snd (attendance_post t df f2 (snd (attendance_post t df f1 s)))) =
     record_view (snd (attendance_post t df f2 s)) \<and>
   students (snd (attendance_post t df f1 (snd (attendance_post t df f1 s)))) =
     students (snd (attendance_post t df f1 s)) \<and>
   record_view (snd (attendance_post t df f1 (snd (attendance_post t df f1 s)))) =
     record_view (snd (attendance_post t df f1 s)) \<and>
   map (\<lambda>r. (total_attendance r, total_classes r)) (students four_days) = [(3, 4)] \<and>
   existing_records ''2025-01-10'' four_days = [] \<and>
   map (\<lambda>r. (total_attendance r, total_classes r))
     (students (snd (attendance_post ''2025-01-10'' (Some ''2025-01-10'') [1 \<mapsto> ''present'']
        four_days))) = [(4, 5)] \<and>
   map (\<lambda>r. (total_attendance r, total_classes r))
     (students (snd (attendance_post ''2025-01-10'' (Some ''2025-01-10'') [1 \<mapsto> ''absent'']
        (snd (attendance_post ''2025-01-10'' (Some ''2025-01-10'') [1 \<mapsto> ''present'']
           four_days))))) = [(3, 5)]"
proof -
  have a: "map (\<lambda>r. (total_attendance r, total_classes r)) (students four_days) = [(3, 4)]"
    by (simp add: four_days_eq)
  have b: "existing_records ''2025-01-10'' four_days = []"
    by (simp add: four_days_eq existing_records_def)
  have c: "map (\<lambda>r. (total_attendance r, total_classes r))
     (students (snd (attendance_post ''2025-01-10'' (Some ''2025-01-10'') [1 \<mapsto> ''present'']
        four_days))) = [(4, 5)]"
    unfolding scenario_present by simp
  have d: "map (\<lambda>r. (total_attendance r, total_classes r))
     (students (snd (attendance_post ''2025-01-10'' (Some ''2025-01-10'') [1 \<mapsto> ''absent'']
        (snd (attendance_post ''2025-01-10'' (Some ''2025-01-10'') [1 \<mapsto> ''present'']
           four_days))))) = [(3, 5)]"
    unfolding scenario_absent by simp
  show ?thesis
    using reapply_general [of t df f2 f1 s] reapply_general [of t df f1 f1 s] a b c d
    by (intro conjI) simp_all
qed


section \<open>Dates as text\<close>

lemma less_10_cases:
  "n < 10 \<Longrightarrow> n = 0 \<or> n = 1 \<or> n = 2 \<or> n = 3 \<or> n = 4 \<or> n = 5 \<or> n = 6 \<or> n = 7 \<or> n = 8 \<or> n = (9::nat)"
  by arith

lemma digit_char_props:
  assumes "n < 10"
  shows "is_digit (digit_char n)" "digit_val (digit_char n) = n" "of_char (digit_char n) = 48 + n"
  using less_10_cases [OF assms]
  by (auto simp: digit_char_def is_digit_def digit_val_def)

lemma digit_char_less:
  "a < 10 \<Longrightarrow> b < 10 \<Longrightarrow> (digit_char a < digit_char b) = (a < b)"
  by (simp add: less_char_def digit_char_props)

lemma digit_char_eq:
  "a < 10 \<Longrightarrow> b < 10 \<Longrightarrow> (digit_char a = digit_char b) = (a = b)"
  by (metis digit_char_props(2))

lemma lex_base:
  assumes "r < k" "r' < k"
  shows "(q < q' \<or> (q = q' \<and> r < r')) = (k * q + r < k * q' + (r'::nat))"
proof (cases "q < q'")
  case True
  then have "k * (q + 1) \<le> k * q'" by (intro mult_le_mono2) simp
  with assms True show ?thesis by (simp add: algebra_simps)
next
  case False
  show ?thesis
  proof (cases "q = q'")
    case True
    then show ?thesis by simp
  next
    case False
    with \<open>\<not> q < q'\<close> have "q' < q" by simp
    then have "k * (q' + 1) \<le> k * q" by (intro mult_le_mono2) simp
    with assms \<open>q' < q\<close> show ?thesis by (simp add: algebra_simps)
  qed
qed

lemma lex_base_eq:
  assumes "r < k" "r' < k"
  shows "(q = q' \<and> r = r') = (k * q + r = k * q' + (r'::nat))"
proof
  assume "q = q' \<and> r = r'"
  then show "k * q + r = k * q' + r'" by simp
next
  assume e: "k * q + r = k * q' + r'"
  have "\<not> (k * q + r < k * q' + r')" "\<not> (k * q' + r' < k * q + r)" using e by simp_all
  then have "\<not> (q < q' \<or> (q = q' \<and> r < r'))" "\<not> (q' < q \<or> (q' = q \<and> r' < r))"
    using lex_base [OF assms, of q q'] lex_base [OF assms(2) assms(1), of q' q] by simp_all
  then show "q = q' \<and> r = r'" by auto
qed

lemma pad2_less: "a < 100 \<Longrightarrow> b < 100 \<Longrightarrow> (pad2 a < pad2 b) = (a < b)"
proof -
  assume a: "a < 100" and b: "b < 100"
  then have q: "a div 10 < 10" "b div 10 < 10" by auto
  then have m: "a div 10 mod 10 = a div 10" "b div 10 mod 10 = b div 10" by auto
  have "(pad2 a < pad2 b) = (a div 10 < b div 10 \<or> (a div 10 = b div 10 \<and> a mod 10 < b mod 10))"
    using q by (simp add: pad2_def m digit_char_less digit_char_eq)
  also have "\<dots> = (10 * (a div 10) + a mod 10 < 10 * (b div 10) + b mod 10)"
    by (rule lex_base) simp_all
  also have "\<dots> = (a < b)" by simp
  finally show ?thesis .
qed

lemma pad2_eq: "a < 100 \<Longrightarrow> b < 100 \<Longrightarrow> (pad2 a = pad2 b) = (a = b)"
proof -
  assume a: "a < 100" and b: "b < 100"
  then have q: "a div 10 < 10" "b div 10 < 10" by auto
  then have m: "a div 10 mod 10 = a div 10" "b div 10 mod 10 = b div 10" by auto
  have "(pad2 a = pad2 b) = (a div 10 = b div 10 \<and> a mod 10 = b mod 10)"
    using q by (simp add: pad2_def m digit_char_eq)
  also have "\<dots> = (10 * (a div 10) + a mod 10 = 10 * (b div 10) + b mod 10)"
    by (rule lex_base_eq) simp_all
  also have "\<dots> = (a = b)" by simp
  finally show ?thesis .
qed

lemma append_less_same_length:
  "length a = length a' \<Longrightarrow> (a @ b < a' @ b') = (a < a' \<or> (a = a' \<and> b < b'))"
  by (induction a a' rule: list_induct2) auto

lemma length_pad2: "length (pad2 n) = 2"
  by (simp add: pad2_def)

lemma pad4_less: "a < 10000 \<Longrightarrow> b < 10000 \<Longrightarrow> (pad4 a < pad4 b) = (a < b)"
proof -
  assume a: "a < 10000" and b: "b < 10000"
  then have q: "a div 100 < 100" "b div 100 < 100" by auto
  then have m: "a div 100 mod 100 = a div 100" "b div 100 mod 100 = b div 100" by auto
  have "(pad4 a < pad4 b) =
      (a div 100 < b div 100 \<or> (a div 100 = b div 100 \<and> a mod 100 < b mod 100))"
    using q by (simp add: pad4_def m append_less_same_length length_pad2 pad2_less pad2_eq)
  also have "\<dots> = (100 * (a div 100) + a mod 100 < 100 * (b div 100) + b mod 100)"
    by (rule lex_base) simp_all
  also have "\<dots> = (a < b)" by simp
  finally show ?thesis .
qed

lemma pad4_eq: "a < 10000 \<Longrightarrow> b < 10000 \<Longrightarrow> (pad4 a = pad4 b) = (a = b)"
proof -
  assume a: "a < 10000" and b: "b < 10000"
  then have q: "a div 100 < 100" "b div 100 < 100" by auto
  then have m: "a div 100 mod 100 = a div 100" "b div 100 mod 100 = b div 100" by auto
  have "(pad4 a = pad4 b) = (a div 100 = b div 100 \<and> a mod 100 = b mod 100)"
    using q by (simp add: pad4_def m length_pad2 pad2_eq)
  also have "\<dots> = (100 * (a div 100) + a mod 100 = 100 * (b div 100) + b mod 100)"
    by (rule lex_base_eq) simp_all
  also have "\<dots> = (a = b)" by simp
  finally show ?thesis .
qed

lemma length_pad4: "length (pad4 n) = 4"
  by (simp add: pad4_def pad2_def)

lemma iso_date_less:
  assumes "y < 10000" "y' < 10000" "m < 100" "m' < 100" "d < 100" "d' < 100"
  shows "(iso_date y m d < iso_date y' m' d') = date_less (y, m, d) (y', m', d')"
proof -
  have "(iso_date y m d < iso_date y' m' d') =
        (pad4 y < pad4 y' \<or> (pad4 y = pad4 y' \<and> (pad2 m < pad2 m' \<or> (pad2 m = pad2 m' \<and> pad2 d < pad2 d'))))"
    unfolding iso_date_def
    by (simp add: append_less_same_length length_pad4 length_pad2
        append_less_same_length [where a = "[CHR ''-'']" and a' = "[CHR ''-'']", simplified])
  then show ?thesis
    using assms by (simp add: pad4_less pad4_eq pad2_less pad2_eq date_less_def)
qed

lemma pad2_digits:
  assumes "n < 100"
  shows "\<exists>a b. pad2 n = [a, b] \<and> is_digit a \<and> is_digit b \<and> 10 * digit_val a + digit_val b = n"
proof -
  from assms have "n div 10 < 10" by auto
  then have m: "n div 10 mod 10 = n div 10" by auto
  have "n mod 10 < 10" by simp
  then show ?thesis
    using \<open>n div 10 < 10\<close> by (simp add: pad2_def m digit_char_props)
qed

lemma year_part_pad4:
  assumes "y < 10000"
  shows "year_part (pad4 y @ r) = [(y, r)]"
proof -
  from assms have q: "y div 100 < 100" by auto
  then have m: "y div 100 mod 100 = y div 100" by auto
  from pad2_digits [OF q] obtain a b where ab: "pad2 (y div 100) = [a, b]" "is_digit a" "is_digit b"
    "10 * digit_val a + digit_val b = y div 100" by blast
  have "y mod 100 < 100" by simp
  from pad2_digits [OF this] obtain c d where cd: "pad2 (y mod 100) = [c, d]" "is_digit c" "is_digit d"
    "10 * digit_val c + digit_val d = y mod 100" by blast
  have "1000 * digit_val a + 100 * digit_val b + 10 * digit_val c + digit_val d =
        100 * (10 * digit_val a + digit_val b) + (10 * digit_val c + digit_val d)" by simp
  also have "\<dots> = y" unfolding ab cd by simp
  finally show ?thesis
    by (simp add: year_part_def pad4_def m ab cd)
qed

lemma hyphen_cons: "hyphen (CHR ''-'' # r) = [r]"
  by (simp add: hyphen_def)

lemma month_cases:
  "1 \<le> m \<Longrightarrow> m \<le> 12 \<Longrightarrow>
   m = 1 \<or> m = 2 \<or> m = 3 \<or> m = 4 \<or> m = 5 \<or> m = 6 \<or> m = 7 \<or> m = 8 \<or> m = 9 \<or> m = 10 \<or>
   m = 11 \<or> m = (12::nat)"
  by arith

lemma month_part_pad2:
  assumes "1 \<le> m" "m \<le> 12"
  shows "\<exists>rest. month_part (pad2 m @ r) = (m, r) # rest"
  using month_cases [OF assms]
  by (elim disjE)
     (simp_all add: month_part_def two_chars_def one_char_def between_def pad2_def digit_char_def
        digit_val_def is_digit_def)

lemma day_cases:
  "1 \<le> d \<Longrightarrow> d \<le> 31 \<Longrightarrow>
   d = 1 \<or> d = 2 \<or> d = 3 \<or> d = 4 \<or> d = 5 \<or> d = 6 \<or> d = 7 \<or> d = 8 \<or> d = 9 \<or> d = 10 \<or>
   d = 11 \<or> d = 12 \<or> d = 13 \<or> d = 14 \<or> d = 15 \<or> d = 16 \<or> d = 17 \<or> d = 18 \<or> d = 19 \<or>
   d = 20 \<or> d = 21 \<or> d = 22 \<or> d = 23 \<or> d = 24 \<or> d = 25 \<or> d = 26 \<or> d = 27 \<or> d = 28 \<or>
   d = 29 \<or> d = 30 \<or> d = (31::nat)"
  by arith

lemma day_part_pad2:
  assumes "1 \<le> d" "d \<le> 31"
  shows "\<exists>rest. day_part (pad2 d) = (d, []) # rest"
  using day_cases [OF assms]
  by (elim disjE)
     (simp_all add: day_part_def two_chars_def one_char_def between_def pad2_def digit_char_def
        digit_val_def is_digit_def)

lemma days_in_month_le: "1 \<le> m \<Longrightarrow> m \<le> 12 \<Longrightarrow> days_in_month y m \<le> 31"
  using month_cases [of m]
  by (auto simp: days_in_month_def)

lemma date_matches_iso:
  assumes "valid_date y m d"
  shows "\<exists>rest. date_matches (iso_date y m d) = ((y, m, d), []) # rest"
proof -
  from assms have y: "y < 10000" and m: "1 \<le> m" "m \<le> 12" and d: "1 \<le> d" "d \<le> 31"
    using days_in_month_le [of m y] by (auto simp: valid_date_def)
  from month_part_pad2 [OF m] obtain mrest where
    mp: "month_part (pad2 m @ CHR ''-'' # pad2 d) = (m, CHR ''-'' # pad2 d) # mrest" by blast
  from day_part_pad2 [OF d] obtain drest where dp: "day_part (pad2 d) = (d, []) # drest" by blast
  have "iso_date y m d = pad4 y @ CHR ''-'' # pad2 m @ CHR ''-'' # pad2 d"
    by (simp add: iso_date_def)
  then show ?thesis
    by (simp add: date_matches_def year_part_pad4 [OF y] hyphen_cons mp dp)
qed

lemma strptime_iso:
  assumes "valid_date y m d"
  shows "strptime (iso_date y m d) = Some (y, m, d)"
proof -
  from date_matches_iso [OF assms] obtain rest where
    "date_matches (iso_date y m d) = ((y, m, d), []) # rest" by blast
  then show ?thesis
    using assms by (simp add: strptime_def valid_date_def)
qed

section \<open>Rejected and accepted dates\<close>

lemma rejected_flashes:
  "rejected future_flash" "rejected sunday_flash" "\<not> rejected (saved_flash ds)"
  "future_flash \<noteq> sunday_flash"
  by (simp_all add: rejected_def future_flash_def sunday_flash_def saved_flash_def)

text \<open>
  Claim C4. For a valid calendar date \<open>D\<close> in ISO form and the current day in ISO
  form, the submission is rejected exactly when \<open>D\<close> is after the current day or \<open>D\<close>
  is a Sunday: a future date gets the future-date message, a Sunday that is not in the
  future the Sunday message (the two differ), both leave the database as it was, and
  any other date is saved as the day's marking.
\<close>

theorem attendance_rejections:
  assumes "valid_date y m d" and "valid_date ty tm td"
  shows "attendance_post (iso_date ty tm td) (Some (iso_date y m d)) form s =
           (if date_less (ty, tm, td) (y, m, d) then (future_flash, s)
            else if weekday (y, m, d) = 6 then (sunday_flash, s)
            else (saved_flash (iso_date y m d), apply_day (iso_date y m d) form s)) \<and>
         rejected (fst (attendance_post (iso_date ty tm td) (Some (iso_date y m d)) form s)) =
           (date_less (ty, tm, td) (y, m, d) \<or> weekday (y, m, d) = 6) \<and>
         future_flash \<noteq> sunday_flash"
proof -
  have b: "y < 10000" "ty < 10000" "m < 100" "tm < 100"
    using assms by (auto simp: valid_date_def)
  have "d \<le> 31" "td \<le> 31"
    using assms days_in_month_le [of m y] days_in_month_le [of tm ty] by (auto simp: valid_date_def)
  then have c: "d < 100" "td < 100" by simp_all
  have future: "(iso_date ty tm td < iso_date y m d) = date_less (ty, tm, td) (y, m, d)"
    using b c by (intro iso_date_less)
  have sunday: "is_sunday (iso_date y m d) = (weekday (y, m, d) = 6)"
    by (simp add: is_sunday_def strptime_iso [OF assms(1)])
  have post: "attendance_post (iso_date ty tm td) (Some (iso_date y m d)) form s =
           (if date_less (ty, tm, td) (y, m, d) then (future_flash, s)
            else if weekday (y, m, d) = 6 then (sunday_flash, s)
            else (saved_flash (iso_date y m d), apply_day (iso_date y m d) form s))"
    by (simp add: attendance_post_cases Let_def future sunday)
  have "rejected (fst (attendance_post (iso_date ty tm td) (Some (iso_date y m d)) form s)) =
           (date_less (ty, tm, td) (y, m, d) \<or> weekday (y, m, d) = 6)"
    unfolding post by (simp add: rejected_flashes)
  with post rejected_flashes(4) show ?thesis by (intro conjI)
qed

lemma iso_examples:
  "iso_date 2025 3 16 = ''2025-03-16''" "iso_date 2025 3 17 = ''2025-03-17''"
  "iso_date 2025 3 14 = ''2025-03-14''"
  by (simp_all add: iso_date_def pad4_def pad2_def digit_char_def)

theorem attendance_rejections_witness:
  "valid_date 2025 3 16 \<and> valid_date 2025 3 17 \<and> valid_date 2025 3 14 \<and>
   attendance_post ''2025-03-16'' (Some ''2025-03-16'') Map.empty two_students =
     (sunday_flash, two_students) \<and>
   attendance_post ''2025-03-16'' (Some ''2025-03-17'') Map.empty two_students =
     (future_flash, two_students) \<and>
   attendance_post ''2025-03-16'' (Some ''2025-03-14'') Map.empty two_students =
     (saved_flash ''2025-03-14'', apply_day ''2025-03-14'' Map.empty two_students)"
proof -
  have v: "valid_date 2025 3 16" "valid_date 2025 3 17" "valid_date 2025 3 14"
    by (simp_all add: valid_date_def days_in_month_def)
  have w: "weekday (2025, 3, 16) = 6" "weekday (2025, 3, 14) \<noteq> 6"
    by (simp_all add: weekday_def ymd2ord_def days_before_year_def days_before_month_def is_leap_def)
  have l: "\<not> date_less (2025, 3, 16) (2025, 3, 16)" "date_less (2025, 3, 16) (2025, 3, 17)"
    "\<not> date_less (2025, 3, 16) (2025, 3, 14)"
    by (simp_all add: date_less_def)
  from attendance_rejections [OF v(1) v(1), of Map.empty two_students] w l
  have a: "attendance_post ''2025-03-16'' (Some ''2025-03-16'') Map.empty two_students =
     (sunday_flash, two_students)"
    by (simp add: iso_examples)
  from attendance_rejections [OF v(2) v(1), of Map.empty two_students] l
  have b: "attendance_post ''2025-03-16'' (Some ''2025-03-17'') Map.empty two_students =
     (future_flash, two_students)"
    by (simp add: iso_examples)
  from attendance_rejections [OF v(3) v(1), of Map.empty two_students] w l
  have c: "attendance_post ''2025-03-16'' (Some ''2025-03-14'') Map.empty two_students =
     (saved_flash ''2025-03-14'', apply_day ''2025-03-14'' Map.empty two_students)"
    by (simp add: iso_examples)
  from v a b c show ?thesis by (intro conjI)
qed


text \<open>
  Claim C10. A date text on which \<open>strptime\<close> raises and which is not greater than today's
  text is not rejected: the Sunday check is passed over, the day is marked, and the
  records of the day carry the text itself as their date, one per student.
\<close>

theorem unparsed_date_is_stored:
  assumes "strptime ds = None" and "ds \<le> today_str"
  shows "attendance_post today_str (Some ds) form s = (saved_flash ds, apply_day ds form s) \<and>
         \<not> rejected (fst (attendance_post today_str (Some ds) form s)) \<and>
         map (\<lambda>r. (date r, student_id r, status r))
             (existing_records ds (snd (attendance_post today_str (Some ds) form s))) =
           map (\<lambda>st. (ds, sid st, form_status form (sid st))) (students_by_roll s)"
proof -
  from assms(2) have "\<not> today_str < ds" by simp
  moreover from assms(1) have "\<not> is_sunday ds" by (simp add: is_sunday_def)
  ultimately have post: "attendance_post today_str (Some ds) form s = (saved_flash ds, apply_day ds form s)"
    by (simp add: attendance_post_cases Let_def)
  then show ?thesis
    by (simp add: rejected_flashes existing_apply_day new_records_view)
qed

theorem unparsed_date_is_stored_witness:
  "strptime ''2024-13-45'' = None \<and> ''2024-13-45'' \<le> ''2025-01-10'' \<and>
   fst (attendance_post ''2025-01-10'' (Some ''2024-13-45'') [1 \<mapsto> ''present''] two_students) =
     saved_flash ''2024-13-45'' \<and>
   map (\<lambda>r. (date r, student_id r, status r))
       (existing_records ''2024-13-45''
          (snd (attendance_post ''2025-01-10'' (Some ''2024-13-45'') [1 \<mapsto> ''present''] two_students))) =
     [(''2024-13-45'', 1, ''present''), (''2024-13-45'', 2, ''absent'')]"
proof -
  have p: "strptime ''2024-13-45'' = None"
    by (simp add: date_eval)
  have l: "''2024-13-45'' \<le> ''2025-01-10''" by simp
  have r: "map (\<lambda>st. (''2024-13-45'', sid st, form_status [1 \<mapsto> ''present''] (sid st)))
             (students_by_roll two_students) =
           [(''2024-13-45'', 1, ''present''), (''2024-13-45'', 2, ''absent'')]"
    by (simp add: two_students_eq students_by_roll_def form_status_def)
  note inst = unparsed_date_is_stored [OF p l, of "[1 \<mapsto> ''present'']" two_students]
  from inst [THEN conjunct1]
  have f: "fst (attendance_post ''2025-01-10'' (Some ''2024-13-45'') [1 \<mapsto> ''present''] two_students) =
     saved_flash ''2024-13-45''"
    by (rule arg_cong [where f = fst, THEN trans]) (rule fst_conv)
  from inst [THEN conjunct2, THEN conjunct2] r
  have g: "map (\<lambda>r. (date r, student_id r, status r))
       (existing_records ''2024-13-45''
          (snd (attendance_post ''2025-01-10'' (Some ''2024-13-45'') [1 \<mapsto> ''present''] two_students))) =
     [(''2024-13-45'', 1, ''present''), (''2024-13-45'', 2, ''absent'')]"
    by (rule trans)
  from p l f g show ?thesis by (intro conjI)
qed


section \<open>Failures during the marking\<close>

lemma fold_perform_execute:
  "fold perform (map Execute cs) (c, p) = (c, fold exec cs p)"
  by (induction cs arbitrary: p) simp_all

lemma failing_before_commit:
  assumes "k \<le> length cs"
  shows "failing_at k (map Execute cs @ [Commit]) s = s"
proof -
  from assms have "take k (map Execute cs @ [Commit]) = map Execute (take k cs)"
    by (simp add: take_map)
  then show ?thesis by (simp add: failing_at_def fold_perform_execute)
qed

lemma not_failing:
  assumes "length cs < k"
  shows "failing_at k (map Execute cs @ [Commit]) s = fold exec cs s"
proof -
  from assms have "take k (map Execute cs @ [Commit]) = map Execute cs @ [Commit]"
    by simp
  then show ?thesis by (simp add: failing_at_def fold_perform_execute)
qed

text \<open>
  Claim C3. Whichever call of the handler's connection raises, the database afterwards
  is the one before the request when the failure comes before the commit has succeeded,
  and the one of the whole marking (\<open>apply_day\<close>) otherwise; the request itself, when no
  call raises, either rejects the date and changes nothing or is the complete run.
\<close>

theorem attendance_atomic:
  "failing_at k (attendance_actions ds form s) s =
     (if k \<le> length (attendance_stmts ds form s) then s else apply_day ds form s) \<and>
   snd (attendance_post t (Some ds) form s) =
     (if t < ds \<or> is_sunday ds then s
      else failing_at (length (attendance_actions ds form s)) (attendance_actions ds form s) s)"
proof -
  have a: "failing_at k (attendance_actions ds form s) s =
     (if k \<le> length (attendance_stmts ds form s) then s else apply_day ds form s)"
    by (simp add: attendance_actions_def failing_before_commit not_failing run_attendance)
  have "length (attendance_stmts ds form s) < length (attendance_actions ds form s)"
    by (simp add: attendance_actions_def)
  then have "failing_at (length (attendance_actions ds form s)) (attendance_actions ds form s) s =
      apply_day ds form s"
    unfolding attendance_actions_def by (simp add: not_failing run_attendance)
  then have b: "snd (attendance_post t (Some ds) form s) =
     (if t < ds \<or> is_sunday ds then s
      else failing_at (length (attendance_actions ds form s)) (attendance_actions ds form s) s)"
    by (simp add: attendance_post_cases Let_def)
  from a b show ?thesis by (intro conjI)
qed

section \<open>The counts of the monthly report\<close>










lemma dates_in_month_some:
  assumes "1 \<le> m" "m \<le> 12" "1 \<le> y" "y \<le> 9999"
  shows "dates_in_month y m = Some (map (strftime_ymd y m) [1..<days_in_month y m + 1])"
  using assms by (simp add: dates_in_month_def)













end
